theory Spec2Isabelle
  imports Main "HOL-Library.Sublist"
begin

section \<open>Article model\<close>

text \<open>
  \<^verbatim>\<open>IArticleAttributes\<close> is the wire record of an article. The JavaScript \<^verbatim>\<open>number\<close>
  fields hold comment counts and are integers here; \<^verbatim>\<open>url\<close> may be \<^verbatim>\<open>null\<close> (the model
  function itself writes \<^verbatim>\<open>null\<close> into it), so it is an option. The fields \<^verbatim>\<open>id\<close> and
  \<^verbatim>\<open>text\<close> carry a prime because the plain names are taken in HOL.
\<close>

type_synonym ModelId = string

record IArticleAttributes =
  id' :: ModelId
  sourceCreatedAt :: string
  updatedAt :: string
  title :: string
  text' :: string
  url :: "string option"
  categoryId :: ModelId
  allCount :: int
  unprocessedCount :: int
  unmoderatedCount :: int
  moderatedCount :: int
  deferredCount :: int
  approvedCount :: int
  highlightedCount :: int
  rejectedCount :: int
  flaggedCount :: int
  batchedCount :: int
  automatedCount :: int
  lastModeratedAt :: string
  assignedModerators :: "ModelId list"
  isCommentingEnabled :: bool
  isAutoModerated :: bool

text \<open>Exceptions of the JavaScript code, as values.\<close>

datatype error = TypeError | SyntaxError | Error string

text \<open>
  \<^verbatim>\<open>if (articleData.url)\<close> is JavaScript truthiness: \<^verbatim>\<open>null\<close> and the empty string
  are falsy, every other string is truthy.
\<close>

definition truthy_string :: "string option \<Rightarrow> bool" where
  "truthy_string s = (case s of None \<Rightarrow> False | Some u \<Rightarrow> u \<noteq> [])"

text \<open>
  \<^verbatim>\<open>ArticleModel(articleData?)\<close>: the parameter is optional, and reading \<^verbatim>\<open>.url\<close> of
  \<^verbatim>\<open>undefined\<close> raises a TypeError. The source overwrites \<^verbatim>\<open>articleData.url\<close> in
  place and returns the same object; the model returns the updated record.
  \<^verbatim>\<open>startsWith\<close> is \<^const>\<open>prefix\<close>.
\<close>

definition ArticleModel :: "IArticleAttributes option \<Rightarrow> error + IArticleAttributes" where
  "ArticleModel articleData =
     (case articleData of
        None \<Rightarrow> Inl TypeError
      | Some a \<Rightarrow>
          if truthy_string (url a) then
            (let u = the (url a) in
             if \<not> prefix ''http://'' u \<and> \<not> prefix ''https://'' u
             then Inr (a\<lparr>url := None\<rparr>)
             else Inr a)
          else Inr a)"

section \<open>Data service\<close>

subsection \<open>HTTP requests\<close>

text \<open>
  The data service talks to the backend through \<^verbatim>\<open>axios\<close>. A call of \<^verbatim>\<open>axios.post\<close>,
  \<^verbatim>\<open>axios.patch\<close>, \<^verbatim>\<open>axios.get\<close> or \<^verbatim>\<open>axios.delete\<close> is the request it issues:
  method, URL and JSON body (\<open>None\<close> when the call passes no body). A function of the
  service returns the requests it issues, in order.
\<close>

datatype json =
    JNull
  | JBool bool
  | JNum int
  | JStr string
  | JArr "json list"
  | JObj "(string \<times> json) list"

datatype http_method = GET | POST | PATCH | DELETE

datatype request = Request http_method string "json option"

fun request_method :: "request \<Rightarrow> http_method" where
  "request_method (Request m u b) = m"

fun request_url :: "request \<Rightarrow> string" where
  "request_url (Request m u b) = u"

fun request_body :: "request \<Rightarrow> json option" where
  "request_body (Request m u b) = b"

subsection \<open>Model names\<close>

text \<open>
  \<^verbatim>\<open>VALID_MODEL_NAMES_LOOKUP\<close> is an object literal with nine own properties, all
  \<^verbatim>\<open>true\<close>. \<^verbatim>\<open>VALID_MODEL_NAMES_LOOKUP[name]\<close> is a JavaScript property read: it
  finds an own property first and then follows the prototype chain, and the prototype
  of an object literal is \<^verbatim>\<open>Object.prototype\<close>. The names below are the properties of
  \<^verbatim>\<open>Object.prototype\<close> (ECMAScript, with the legacy accessors of Annex B); each is a
  function, or for \<^verbatim>\<open>__proto__\<close> the prototype object itself, hence truthy.
\<close>

definition VALID_MODEL_NAMES_LOOKUP :: "(string \<times> bool) list" where
  "VALID_MODEL_NAMES_LOOKUP =
     [(''articles'', True),
      (''categories'', True),
      (''comment_scores'', True),
      (''comments'', True),
      (''moderation_rules'', True),
      (''preselects'', True),
      (''tagging_sensitivities'', True),
      (''tags'', True),
      (''users'', True)]"

definition Object_prototype :: "string list" where
  "Object_prototype =
     [''constructor'', ''hasOwnProperty'', ''isPrototypeOf'', ''propertyIsEnumerable'',
      ''toLocaleString'', ''toString'', ''valueOf'', ''__proto__'',
      ''__defineGetter__'', ''__defineSetter__'', ''__lookupGetter__'', ''__lookupSetter__'']"

text \<open>The truth value of \<^verbatim>\<open>obj[name]\<close> for an object literal with boolean own properties.\<close>

definition property_truthy :: "(string \<times> bool) list \<Rightarrow> string \<Rightarrow> bool" where
  "property_truthy obj name =
     (case map_of obj name of
        Some b \<Rightarrow> b
      | None \<Rightarrow> name \<in> set Object_prototype)"

definition invalid_name_message :: "string \<Rightarrow> string" where
  "invalid_name_message name =
     ''Tried to perform a task on a model named '' @ name @
     '' which wasn't in the list of valid values. Might be an attempted exploit.''"

definition validateModelName :: "string \<Rightarrow> error + unit" where
  "validateModelName name =
     (if \<not> property_truthy VALID_MODEL_NAMES_LOOKUP name
      then Inl (Error (invalid_name_message name))
      else Inr ())"

subsection \<open>URLs\<close>

text \<open>
  \<^verbatim>\<open>API_URL\<close> comes from the deployment's configuration and is a parameter of every
  function that builds a URL. \<^verbatim>\<open>serializeParams\<close> hands the query parameters to the
  \<^verbatim>\<open>qs\<close> library; the argument here is \<open>None\<close> for absent parameters and \<open>Some q\<close>
  with \<open>q\<close> the string \<^verbatim>\<open>qs.stringify\<close> returns for present ones.
\<close>

definition AUTH_URL :: string where "AUTH_URL = ''/auth''"
definition REST_URL :: string where "REST_URL = ''/rest''"
definition SERVICES_URL :: string where "SERVICES_URL = ''/services''"

definition serializeParams :: "string option \<Rightarrow> string" where
  "serializeParams originalParams =
     (case originalParams of None \<Rightarrow> [] | Some q \<Rightarrow> ''?'' @ q)"

definition serviceURL :: "string \<Rightarrow> string \<Rightarrow> string option \<Rightarrow> string option \<Rightarrow> string" where
  "serviceURL API_URL service path params =
     API_URL @ SERVICES_URL @ ''/'' @ service
       @ (case path of None \<Rightarrow> [] | Some p \<Rightarrow> p)
       @ serializeParams params"

definition listURL :: "string \<Rightarrow> string \<Rightarrow> string option \<Rightarrow> error + string" where
  "listURL API_URL type params =
     (case validateModelName type of
        Inl e \<Rightarrow> Inl e
      | Inr _ \<Rightarrow> Inr (API_URL @ REST_URL @ ''/'' @ type @ serializeParams params))"

definition modelURL :: "string \<Rightarrow> string \<Rightarrow> string \<Rightarrow> string option \<Rightarrow> error + string" where
  "modelURL API_URL type ident params =
     (case validateModelName type of
        Inl e \<Rightarrow> Inl e
      | Inr _ \<Rightarrow>
          (case listURL API_URL type None of
             Inl e \<Rightarrow> Inl e
           | Inr l \<Rightarrow> Inr (l @ ''/'' @ ident @ serializeParams params)))"

subsection \<open>Creating, updating and destroying models\<close>

text \<open>
  A resource is a JavaScript object: a list of keys with their values.
  \<^verbatim>\<open>fromJS(model).delete('id').toJS()\<close> is the resource without its \<^verbatim>\<open>id\<close> key and
  lodash's \<^verbatim>\<open>pick\<close> keeps the listed keys that the object has. Each function returns
  \<open>Inl\<close> when the exception leaves it before \<^verbatim>\<open>axios\<close> is called, and \<open>Inr\<close> of the
  request otherwise.
\<close>

type_synonym INewResource = "(string \<times> json) list"

definition delete_id :: "INewResource \<Rightarrow> INewResource" where
  "delete_id model = filter (\<lambda>kv. fst kv \<noteq> ''id'') model"

definition pick :: "INewResource \<Rightarrow> string list \<Rightarrow> INewResource" where
  "pick obj keys =
     concat (map (\<lambda>k. case map_of obj k of None \<Rightarrow> [] | Some v \<Rightarrow> [(k, v)]) keys)"

definition createModel :: "string \<Rightarrow> string \<Rightarrow> INewResource \<Rightarrow> error + request" where
  "createModel API_URL type model =
     (case validateModelName type of
        Inl e \<Rightarrow> Inl e
      | Inr _ \<Rightarrow>
          (case listURL API_URL type None of
             Inl e \<Rightarrow> Inl e
           | Inr u \<Rightarrow>
               Inr (Request POST u
                 (Some (JObj [(''data'',
                    JObj [(''attributes'', JObj (delete_id model)),
                          (''type'', JStr type)])])))))"

definition updateModel ::
  "string \<Rightarrow> string \<Rightarrow> string \<Rightarrow> INewResource \<Rightarrow> string list option \<Rightarrow> error + request" where
  "updateModel API_URL type ident model onlyAttributes =
     (case validateModelName type of
        Inl e \<Rightarrow> Inl e
      | Inr _ \<Rightarrow>
          (let attributes = delete_id model;
               attributes = (case onlyAttributes of
                               None \<Rightarrow> attributes
                             | Some keys \<Rightarrow> pick attributes keys)
           in case modelURL API_URL type ident None of
                Inl e \<Rightarrow> Inl e
              | Inr u \<Rightarrow>
                  Inr (Request PATCH u
                    (Some (JObj [(''data'',
                       JObj [(''attributes'', JObj attributes),
                             (''type'', JStr type),
                             (''id'', JStr ident)])])))))"

definition destroyModel :: "string \<Rightarrow> string \<Rightarrow> string \<Rightarrow> error + request" where
  "destroyModel API_URL type ident =
     (case validateModelName type of
        Inl e \<Rightarrow> Inl e
      | Inr _ \<Rightarrow>
          (case modelURL API_URL type ident None of
             Inl e \<Rightarrow> Inl e
           | Inr u \<Rightarrow> Inr (Request DELETE u None)))"

subsection \<open>Comment actions\<close>

definition makeCommentAction :: "string \<Rightarrow> string \<Rightarrow> string list \<Rightarrow> request list" where
  "makeCommentAction API_URL path ids =
     (if length ids \<le> 0 then []
      else [Request POST (serviceURL API_URL ''commentActions'' (Some path) None)
              (Some (JObj [(''data'', JArr (map JStr ids)),
                           (''runImmediately'', JBool True)]))])"

definition makeCommentActionForId :: "string \<Rightarrow> string \<Rightarrow> string \<Rightarrow> request list" where
  "makeCommentActionForId API_URL path commentId =
     [Request POST (serviceURL API_URL ''commentActions'' (Some path) None)
        (Some (JObj [(''data'', JObj [(''commentId'', JStr commentId)])]))]"

definition deleteCommentScoreRequest :: "string \<Rightarrow> string \<Rightarrow> string \<Rightarrow> request list" where
  "deleteCommentScoreRequest API_URL commentId commentScoreId =
     [Request DELETE
        (serviceURL API_URL ''commentActions''
           (Some (''/'' @ commentId @ ''/scores/'' @ commentScoreId)) None)
        None]"

definition highlightCommentsRequest :: "string \<Rightarrow> string list \<Rightarrow> request list" where
  "highlightCommentsRequest API_URL ids = makeCommentAction API_URL ''/highlight'' ids"

definition resetCommentsRequest :: "string \<Rightarrow> string list \<Rightarrow> request list" where
  "resetCommentsRequest API_URL ids = makeCommentAction API_URL ''/reset'' ids"

definition approveCommentsRequest :: "string \<Rightarrow> string list \<Rightarrow> request list" where
  "approveCommentsRequest API_URL ids = makeCommentAction API_URL ''/approve'' ids"

definition approveFlagsAndCommentsRequest :: "string \<Rightarrow> string list \<Rightarrow> request list" where
  "approveFlagsAndCommentsRequest API_URL ids = makeCommentAction API_URL ''/approve-flags'' ids"

definition resolveFlagsRequest :: "string \<Rightarrow> string list \<Rightarrow> request list" where
  "resolveFlagsRequest API_URL ids = makeCommentAction API_URL ''/resolve-flags'' ids"

definition deferCommentsRequest :: "string \<Rightarrow> string list \<Rightarrow> request list" where
  "deferCommentsRequest API_URL ids = makeCommentAction API_URL ''/defer'' ids"

definition rejectCommentsRequest :: "string \<Rightarrow> string list \<Rightarrow> request list" where
  "rejectCommentsRequest API_URL ids = makeCommentAction API_URL ''/reject'' ids"

definition rejectFlagsAndCommentsRequest :: "string \<Rightarrow> string list \<Rightarrow> request list" where
  "rejectFlagsAndCommentsRequest API_URL ids = makeCommentAction API_URL ''/reject-flags'' ids"

definition tagCommentsRequest :: "string \<Rightarrow> string list \<Rightarrow> string \<Rightarrow> request list" where
  "tagCommentsRequest API_URL ids tagId = makeCommentAction API_URL (''/tag/'' @ tagId) ids"

definition tagCommentSummaryScoresRequest :: "string \<Rightarrow> string list \<Rightarrow> string \<Rightarrow> request list" where
  "tagCommentSummaryScoresRequest API_URL ids tagId =
     makeCommentAction API_URL (''/tagCommentSummaryScores/'' @ tagId) ids"

definition confirmCommentSummaryScoreRequest :: "string \<Rightarrow> string \<Rightarrow> string \<Rightarrow> request list" where
  "confirmCommentSummaryScoreRequest API_URL commentId tagId =
     makeCommentActionForId API_URL
       (''/'' @ commentId @ ''/tagCommentSummaryScores/'' @ tagId @ ''/confirm'') commentId"

definition rejectCommentSummaryScoreRequest :: "string \<Rightarrow> string \<Rightarrow> string \<Rightarrow> request list" where
  "rejectCommentSummaryScoreRequest API_URL commentId tagId =
     makeCommentActionForId API_URL
       (''/'' @ commentId @ ''/tagCommentSummaryScores/'' @ tagId @ ''/reject'') commentId"

definition tagCommentsAnnotationRequest ::
  "string \<Rightarrow> string \<Rightarrow> string \<Rightarrow> int \<Rightarrow> int \<Rightarrow> request list" where
  "tagCommentsAnnotationRequest API_URL commentId tagId start end' =
     [Request POST
        (serviceURL API_URL ''commentActions'' (Some (''/'' @ commentId @ ''/scores'')) None)
        (Some (JObj [(''data'',
           JObj [(''tagId'', JStr tagId),
                 (''annotationStart'', JNum start),
                 (''annotationEnd'', JNum end')])]))]"

definition confirmCommentScoreRequest :: "string \<Rightarrow> string \<Rightarrow> string \<Rightarrow> request list" where
  "confirmCommentScoreRequest API_URL commentId commentScoreId =
     [Request POST
        (serviceURL API_URL ''commentActions''
           (Some (''/'' @ commentId @ ''/scores/'' @ commentScoreId @ ''/confirm'')) None)
        None]"

definition rejectCommentScoreRequest :: "string \<Rightarrow> string \<Rightarrow> string \<Rightarrow> request list" where
  "rejectCommentScoreRequest API_URL commentId commentScoreId =
     [Request POST
        (serviceURL API_URL ''commentActions''
           (Some (''/'' @ commentId @ ''/scores/'' @ commentScoreId @ ''/reject'')) None)
        None]"

definition resetCommentScoreRequest :: "string \<Rightarrow> string \<Rightarrow> string \<Rightarrow> request list" where
  "resetCommentScoreRequest API_URL commentId commentScoreId =
     [Request POST
        (serviceURL API_URL ''commentActions''
           (Some (''/'' @ commentId @ ''/scores/'' @ commentScoreId @ ''/reset'')) None)
        None]"

text \<open>
  The comment-action interface of the service as one type: a value is a call of one of
  the exported functions above with its arguments, and \<open>commentActionRequests\<close> is the
  requests that call issues.
\<close>

datatype commentActionCall =
    HighlightComments "string list"
  | ResetComments "string list"
  | ApproveComments "string list"
  | ApproveFlagsAndComments "string list"
  | ResolveFlags "string list"
  | DeferComments "string list"
  | RejectComments "string list"
  | RejectFlagsAndComments "string list"
  | TagComments "string list" string
  | TagCommentSummaryScores "string list" string
  | DeleteCommentScore string string
  | ConfirmCommentSummaryScore string string
  | RejectCommentSummaryScore string string
  | TagCommentsAnnotation string string int int
  | ConfirmCommentScore string string
  | RejectCommentScore string string
  | ResetCommentScore string string

fun commentActionRequests :: "string \<Rightarrow> commentActionCall \<Rightarrow> request list" where
  "commentActionRequests A (HighlightComments ids) = highlightCommentsRequest A ids"
| "commentActionRequests A (ResetComments ids) = resetCommentsRequest A ids"
| "commentActionRequests A (ApproveComments ids) = approveCommentsRequest A ids"
| "commentActionRequests A (ApproveFlagsAndComments ids) = approveFlagsAndCommentsRequest A ids"
| "commentActionRequests A (ResolveFlags ids) = resolveFlagsRequest A ids"
| "commentActionRequests A (DeferComments ids) = deferCommentsRequest A ids"
| "commentActionRequests A (RejectComments ids) = rejectCommentsRequest A ids"
| "commentActionRequests A (RejectFlagsAndComments ids) = rejectFlagsAndCommentsRequest A ids"
| "commentActionRequests A (TagComments ids tagId) = tagCommentsRequest A ids tagId"
| "commentActionRequests A (TagCommentSummaryScores ids tagId) =
     tagCommentSummaryScoresRequest A ids tagId"
| "commentActionRequests A (DeleteCommentScore c s) = deleteCommentScoreRequest A c s"
| "commentActionRequests A (ConfirmCommentSummaryScore c t) =
     confirmCommentSummaryScoreRequest A c t"
| "commentActionRequests A (RejectCommentSummaryScore c t) =
     rejectCommentSummaryScoreRequest A c t"
| "commentActionRequests A (TagCommentsAnnotation c t s e) =
     tagCommentsAnnotationRequest A c t s e"
| "commentActionRequests A (ConfirmCommentScore c s) = confirmCommentScoreRequest A c s"
| "commentActionRequests A (RejectCommentScore c s) = rejectCommentScoreRequest A c s"
| "commentActionRequests A (ResetCommentScore c s) = resetCommentScoreRequest A c s"

section \<open>Realtime notifier\<close>

subsection \<open>Values of type any\<close>

text \<open>
  What arrives on the socket is parsed JSON of type \<^verbatim>\<open>any\<close>: a \<^typ>\<open>json\<close> value, or
  \<^verbatim>\<open>undefined\<close> (\<open>None\<close>) where a property is absent. The JavaScript operations that
  the notifier applies to such values follow. An object is the list of its keys with
  their values, each key once.
\<close>

definition truthy :: "json option \<Rightarrow> bool" where
  "truthy v =
     (case v of
        None \<Rightarrow> False
      | Some JNull \<Rightarrow> False
      | Some (JBool b) \<Rightarrow> b
      | Some (JNum n) \<Rightarrow> n \<noteq> 0
      | Some (JStr s) \<Rightarrow> s \<noteq> []
      | Some (JArr xs) \<Rightarrow> True
      | Some (JObj kvs) \<Rightarrow> True)"

text \<open>
  \<^verbatim>\<open>v.name\<close>: reading a property of \<^verbatim>\<open>undefined\<close> or \<^verbatim>\<open>null\<close> raises a TypeError; an
  object yields the value under the key or \<^verbatim>\<open>undefined\<close>; every other value yields
  \<^verbatim>\<open>undefined\<close> for the names read here (\<^verbatim>\<open>type\<close>, \<^verbatim>\<open>data\<close>, \<^verbatim>\<open>url\<close>, \<^verbatim>\<open>users\<close>,
  \<^verbatim>\<open>tags\<close>, \<^verbatim>\<open>taggingSensitivities\<close>, \<^verbatim>\<open>rules\<close>, \<^verbatim>\<open>preselects\<close>, \<^verbatim>\<open>categories\<close>,
  \<^verbatim>\<open>articles\<close>), none of which is inherited from a prototype.
\<close>

definition property :: "json option \<Rightarrow> string \<Rightarrow> error + json option" where
  "property v name =
     (case v of
        None \<Rightarrow> Inl TypeError
      | Some JNull \<Rightarrow> Inl TypeError
      | Some (JObj kvs) \<Rightarrow> Inr (map_of kvs name)
      | Some _ \<Rightarrow> Inr None)"

text \<open>
  \<^verbatim>\<open>obj.name = value\<close> on an object: the value under an existing key is replaced in
  place, a new key is added at the end.
\<close>

definition assign_property :: "json \<Rightarrow> string \<Rightarrow> json \<Rightarrow> json" where
  "assign_property obj name value =
     (case obj of
        JObj kvs \<Rightarrow>
          if name \<in> fst ` set kvs
          then JObj (map (\<lambda>kv. if fst kv = name then (name, value) else kv) kvs)
          else JObj (kvs @ [(name, value)])
      | _ \<Rightarrow> obj)"

text \<open>
  \<^verbatim>\<open>v.map(f)\<close>: only an array has a \<^verbatim>\<open>map\<close> method; on \<^verbatim>\<open>undefined\<close>, \<^verbatim>\<open>null\<close> and
  every other parsed value the call raises a TypeError. The callback is applied from left
  to right and its first exception ends the call.
\<close>

fun map_models :: "(json \<Rightarrow> error + 'a) \<Rightarrow> json list \<Rightarrow> error + 'a list" where
  "map_models f [] = Inr []"
| "map_models f (x # xs) =
     (case f x of
        Inl e \<Rightarrow> Inl e
      | Inr y \<Rightarrow> (case map_models f xs of Inl e \<Rightarrow> Inl e | Inr ys \<Rightarrow> Inr (y # ys)))"

definition array_map :: "json option \<Rightarrow> (json \<Rightarrow> error + 'a) \<Rightarrow> error + 'a list" where
  "array_map v f =
     (case v of
        Some (JArr xs) \<Rightarrow> map_models f xs
      | _ \<Rightarrow> Inl TypeError)"

text \<open>Sequencing of computations that may raise.\<close>

definition and_then :: "error + 'a \<Rightarrow> ('a \<Rightarrow> error + 'b) \<Rightarrow> error + 'b" where
  "and_then r f = (case r of Inl e \<Rightarrow> Inl e | Inr x \<Rightarrow> f x)"

text \<open>
  \<^verbatim>\<open>ArticleModel\<close> as the notifier calls it, on an article of type \<^verbatim>\<open>any\<close> from the
  wire. It is the function of the first section without the static type: a truthy
  \<^verbatim>\<open>url\<close> that is not a string has no \<^verbatim>\<open>startsWith\<close> method, and the call raises a
  TypeError.
\<close>

definition ArticleModel_any :: "json \<Rightarrow> error + json" where
  "ArticleModel_any articleData =
     (case property (Some articleData) ''url'' of
        Inl e \<Rightarrow> Inl e
      | Inr u \<Rightarrow>
          if truthy u then
            (case u of
               Some (JStr s) \<Rightarrow>
                 if \<not> prefix ''http://'' s \<and> \<not> prefix ''https://'' s
                 then Inr (assign_property articleData ''url'' JNull)
                 else Inr articleData
             | _ \<Rightarrow> Inl TypeError)
          else Inr articleData)"

subsection \<open>Packing the payloads\<close>

text \<open>
  The model constructors other than \<^verbatim>\<open>ArticleModel\<close> come from \<^verbatim>\<open>../../models\<close> and
  are parameters, as is \<^verbatim>\<open>API_URL\<close>; \<open>'m\<close> is the type of the models they build, and
  each may raise. The packed values list their fields in the order of the source:
  \<^verbatim>\<open>ISystemData\<close> has users, tags, taggingSensitivities, rules and preselects;
  \<^verbatim>\<open>IAllArticlesData\<close> and \<^verbatim>\<open>IArticleUpdate\<close> have categories and articles, which in an
  update may be \<^verbatim>\<open>undefined\<close>.
\<close>

record 'm env =
  API_URL :: string
  UserModel :: "json \<Rightarrow> error + 'm"
  TagModel :: "json \<Rightarrow> error + 'm"
  TaggingSensitivityModel :: "json \<Rightarrow> error + 'm"
  RuleModel :: "json \<Rightarrow> error + 'm"
  PreselectModel :: "json \<Rightarrow> error + 'm"
  CategoryModel :: "json \<Rightarrow> error + 'm"

datatype 'm ISystemData = ISystemData "'m list" "'m list" "'m list" "'m list" "'m list"

datatype 'm IAllArticlesData = IAllArticlesData "'m list" "json list"

datatype 'm IArticleUpdate = IArticleUpdate "'m list option" "json list option"

definition packSystemData :: "'m env \<Rightarrow> json option \<Rightarrow> error + 'm ISystemData" where
  "packSystemData env data =
     and_then (property data ''users'') (\<lambda>v.
     and_then (array_map v (UserModel env)) (\<lambda>us.
     and_then (property data ''tags'') (\<lambda>v.
     and_then (array_map v (TagModel env)) (\<lambda>ts.
     and_then (property data ''taggingSensitivities'') (\<lambda>v.
     and_then (array_map v (TaggingSensitivityModel env)) (\<lambda>ss.
     and_then (property data ''rules'') (\<lambda>v.
     and_then (array_map v (RuleModel env)) (\<lambda>rs.
     and_then (property data ''preselects'') (\<lambda>v.
     and_then (array_map v (PreselectModel env)) (\<lambda>ps.
       Inr (ISystemData us ts ss rs ps)))))))))))"

definition packArticleData :: "'m env \<Rightarrow> json option \<Rightarrow> error + 'm IAllArticlesData" where
  "packArticleData env data =
     and_then (property data ''categories'') (\<lambda>v.
     and_then (array_map v (CategoryModel env)) (\<lambda>categories.
     and_then (property data ''articles'') (\<lambda>v.
     and_then (array_map v ArticleModel_any) (\<lambda>articles.
       Inr (IAllArticlesData categories articles)))))"

definition packArticleUpdate :: "'m env \<Rightarrow> json option \<Rightarrow> error + 'm IArticleUpdate" where
  "packArticleUpdate env data =
     and_then (property data ''categories'') (\<lambda>v.
     and_then (if truthy v
               then and_then (array_map v (CategoryModel env)) (\<lambda>cs. Inr (Some cs))
               else Inr None) (\<lambda>categories.
     and_then (property data ''articles'') (\<lambda>v.
     and_then (if truthy v
               then and_then (array_map v ArticleModel_any) (\<lambda>as. Inr (Some as))
               else Inr None) (\<lambda>articles.
       Inr (IArticleUpdate categories articles)))))"

subsection \<open>Sockets, handlers and the module state\<close>

text \<open>
  A \<^verbatim>\<open>WebSocket\<close> object, as far as the notifier uses it: its URL, the
  \<^verbatim>\<open>readyState\<close> the platform maintains, and which of its handler properties have been
  assigned. Every socket the notifier creates lives in a store (\<open>sockets\<close>, in order of
  creation), and the module variable \<^verbatim>\<open>ws\<close> is a reference into the store or
  \<^verbatim>\<open>null\<close>. The store is explicit because the handlers name \<^verbatim>\<open>ws\<close>, not the socket
  they are attached to.
\<close>

datatype readyState = CONNECTING | OPEN | CLOSING | CLOSED

record websocket =
  sock_url :: string
  readyState :: readyState
  has_onopen :: bool
  has_onclose :: bool
  has_onmessage :: bool

definition STATUS_DOWN :: string where "STATUS_DOWN = ''down''"
definition STATUS_UP :: string where "STATUS_UP = ''up''"
definition STATUS_RESET :: string where "STATUS_RESET = ''reset''"

text \<open>
  The five callbacks given to \<^verbatim>\<open>connectNotifier\<close>. A call of one of them is a value of
  this type; the functions below return the calls they make, in order.
  \<^verbatim>\<open>perUserDataHandler\<close> receives \<^verbatim>\<open>body.data\<close> as it is.
\<close>

datatype 'm call =
    websocketStateHandler string
  | systemDataHandler "'m ISystemData"
  | allArticlesDataHandler "'m IAllArticlesData"
  | articleUpdateHandler "'m IArticleUpdate"
  | perUserDataHandler "json option"

text \<open>
  A message event, given by what \<^verbatim>\<open>JSON.parse(message.data)\<close> does with its text: it
  raises a SyntaxError (\<open>Unparsable\<close>) or returns the parsed body.
\<close>

datatype message = Unparsable | Parsed json

text \<open>
  The module variables, the socket store, and the interval timers of the platform:
  \<open>intervals\<close> holds the active timers with their period in milliseconds, and
  \<^verbatim>\<open>setInterval\<close> hands out \<open>timerCount\<close> as the next timer id.
\<close>

record notifier =
  ws :: "nat option"
  intervalTimer :: "nat option"
  gotSystem :: bool
  gotArticles :: bool
  gotUser :: bool
  socketUp :: bool
  sockets :: "websocket list"
  intervals :: "(nat \<times> nat) list"
  timerCount :: nat

definition init :: notifier where
  "init = \<lparr>ws = None, intervalTimer = None, gotSystem = False, gotArticles = False,
           gotUser = False, socketUp = False, sockets = [], intervals = [], timerCount = 0\<rparr>"

subsection \<open>The handlers\<close>

text \<open>
  \<^verbatim>\<open>ws.onopen\<close> assigns \<^verbatim>\<open>ws.onclose\<close>: the close handler goes to the socket \<^verbatim>\<open>ws\<close>
  refers to when the open event arrives. With \<^verbatim>\<open>ws\<close> \<^verbatim>\<open>null\<close> the assignment raises a
  TypeError inside the event handler, which leaves the state as it is.
\<close>

definition onopen :: "notifier \<Rightarrow> notifier" where
  "onopen st =
     (case ws st of
        None \<Rightarrow> st
      | Some i \<Rightarrow> st\<lparr>sockets := (sockets st)[i := (sockets st ! i)\<lparr>has_onclose := True\<rparr>]\<rparr>)"

definition onclose :: "nat \<Rightarrow> notifier \<Rightarrow> 'm call list \<times> notifier" where
  "onclose code st =
     (if code = 1005 then ([websocketStateHandler STATUS_RESET], st)
      else
        (let st1 = st\<lparr>socketUp := False\<rparr>;
             calls = (if \<not> gotSystem st1 \<and> \<not> gotArticles st1 \<and> \<not> gotUser st1
                      then [websocketStateHandler STATUS_RESET]
                      else [websocketStateHandler STATUS_DOWN])
         in (calls, st1\<lparr>ws := None\<rparr>)))"

text \<open>
  The last statement of \<^verbatim>\<open>ws.onmessage\<close>: after the calls made so far, signal
  \<^verbatim>\<open>STATUS_UP\<close> if all three flags are set and \<^verbatim>\<open>socketUp\<close> is not.
\<close>

definition signal_up :: "'m call list \<Rightarrow> notifier \<Rightarrow> error option \<times> 'm call list \<times> notifier" where
  "signal_up calls st1 =
     (if gotSystem st1 \<and> gotArticles st1 \<and> gotUser st1 \<and> \<not> socketUp st1
      then (None, calls @ [websocketStateHandler STATUS_UP], st1\<lparr>socketUp := True\<rparr>)
      else (None, calls, st1))"

text \<open>
  \<^verbatim>\<open>ws.onmessage\<close>. The handler has no \<^verbatim>\<open>try\<close>: an exception of \<^verbatim>\<open>JSON.parse\<close>, of a
  property read or of a pack function leaves it at once, before the data handler is
  called, before the flag is set and before the last statement. The result is the
  exception, if any, the calls made, and the state.
\<close>

definition onmessage :: "'m env \<Rightarrow> message \<Rightarrow> notifier \<Rightarrow> error option \<times> 'm call list \<times> notifier" where
  "onmessage env message st =
     (case message of
        Unparsable \<Rightarrow> (Some SyntaxError, [], st)
      | Parsed body \<Rightarrow>
          (case property (Some body) ''type'' of
             Inl e \<Rightarrow> (Some e, [], st)
           | Inr t \<Rightarrow>
               if t = Some (JStr ''system'') then
                 (case property (Some body) ''data'' of
                    Inl e \<Rightarrow> (Some e, [], st)
                  | Inr d \<Rightarrow>
                      (case packSystemData env d of
                         Inl e \<Rightarrow> (Some e, [], st)
                       | Inr p \<Rightarrow> signal_up [systemDataHandler p] (st\<lparr>gotSystem := True\<rparr>)))
               else if t = Some (JStr ''global'') then
                 (case property (Some body) ''data'' of
                    Inl e \<Rightarrow> (Some e, [], st)
                  | Inr d \<Rightarrow>
                      (case packArticleData env d of
                         Inl e \<Rightarrow> (Some e, [], st)
                       | Inr p \<Rightarrow> signal_up [allArticlesDataHandler p] (st\<lparr>gotArticles := True\<rparr>)))
               else if t = Some (JStr ''user'') then
                 (case property (Some body) ''data'' of
                    Inl e \<Rightarrow> (Some e, [], st)
                  | Inr d \<Rightarrow> signal_up [perUserDataHandler d] (st\<lparr>gotUser := True\<rparr>))
               else if t = Some (JStr ''article-update'') then
                 (case property (Some body) ''data'' of
                    Inl e \<Rightarrow> (Some e, [], st)
                  | Inr d \<Rightarrow>
                      (case packArticleUpdate env d of
                         Inl e \<Rightarrow> (Some e, [], st)
                       | Inr p \<Rightarrow> signal_up [articleUpdateHandler p] st))
               else signal_up [] st))"

subsection \<open>Connecting and disconnecting\<close>

text \<open>
  \<^verbatim>\<open>getToken()\<close> reads the session token from local storage; its result is an argument
  here (\<open>None\<close> for \<^verbatim>\<open>null\<close>, which a template literal prints as \<^verbatim>\<open>null\<close>).
  \<^verbatim>\<open>baseurl.replace(/^http/, 'ws')\<close> replaces a leading \<^verbatim>\<open>http\<close>.
\<close>

definition template :: "string option \<Rightarrow> string" where
  "template v = (case v of None \<Rightarrow> ''null'' | Some t \<Rightarrow> t)"

definition replace_http_ws :: "string \<Rightarrow> string" where
  "replace_http_ws u = (if prefix ''http'' u then ''ws'' @ drop 4 u else u)"

definition checkSocketAlive :: "'m env \<Rightarrow> string option \<Rightarrow> notifier \<Rightarrow> notifier" where
  "checkSocketAlive env token st =
     (if (case ws st of None \<Rightarrow> True | Some i \<Rightarrow> readyState (sockets st ! i) \<noteq> OPEN)
      then
        (let baseurl = serviceURL (API_URL env) (''updates/summary/?token='' @ template token)
                         None None;
             url = replace_http_ws baseurl
         in st\<lparr>ws := Some (length (sockets st)),
                sockets := sockets st @
                  [\<lparr>sock_url = url, readyState = CONNECTING, has_onopen = True,
                    has_onclose = False, has_onmessage = True\<rparr>]\<rparr>)
      else st)"

definition setInterval :: "nat \<Rightarrow> notifier \<Rightarrow> nat \<times> notifier" where
  "setInterval period st =
     (timerCount st,
      st\<lparr>intervals := intervals st @ [(timerCount st, period)],
         timerCount := Suc (timerCount st)\<rparr>)"

definition clearInterval :: "nat option \<Rightarrow> notifier \<Rightarrow> notifier" where
  "clearInterval t st =
     (case t of
        None \<Rightarrow> st
      | Some n \<Rightarrow> st\<lparr>intervals := filter (\<lambda>p. fst p \<noteq> n) (intervals st)\<rparr>)"

definition connectNotifier :: "'m env \<Rightarrow> string option \<Rightarrow> notifier \<Rightarrow> notifier" where
  "connectNotifier env token st =
     (let st1 = checkSocketAlive env token st;
          (n, st2) = setInterval 10000 st1
      in st2\<lparr>intervalTimer := Some n\<rparr>)"

text \<open>
  \<^verbatim>\<open>ws.close()\<close> on a socket that is connecting or open starts the closing handshake
  (\<open>CLOSING\<close>); on a closing or closed socket it does nothing. The close event follows
  later. With \<^verbatim>\<open>ws\<close> \<^verbatim>\<open>null\<close> the call raises a TypeError, after the interval has been
  cleared.
\<close>

definition close_socket :: "nat \<Rightarrow> notifier \<Rightarrow> notifier" where
  "close_socket i st =
     (if readyState (sockets st ! i) = CONNECTING \<or> readyState (sockets st ! i) = OPEN
      then st\<lparr>sockets := (sockets st)[i := (sockets st ! i)\<lparr>readyState := CLOSING\<rparr>]\<rparr>
      else st)"

definition disconnectNotifier :: "notifier \<Rightarrow> error option \<times> notifier" where
  "disconnectNotifier st =
     (let st1 = clearInterval (intervalTimer st) st
      in case ws st1 of
           None \<Rightarrow> (Some TypeError, st1)
         | Some i \<Rightarrow> (None, close_socket i st1))"

subsection \<open>Events\<close>

text \<open>
  What happens to the notifier: the application calls \<^verbatim>\<open>connectNotifier\<close> or
  \<^verbatim>\<open>disconnectNotifier\<close>, an interval timer fires, or the platform delivers an open,
  message or close event of a socket. The platform delivers an open event to a connecting
  socket only, a message to an open socket only and one close event per socket, and it
  sets \<^verbatim>\<open>readyState\<close> before it runs the handler. A timer fires only while it is
  active. An event that the platform cannot deliver leaves the state as it is, and so
  does an exception inside an event handler, beyond what the handler did before it.
\<close>

datatype event =
    CallConnect "string option"
  | CallDisconnect
  | TimerFires nat "string option"
  | SocketOpen nat
  | SocketMessage nat message
  | SocketClose nat nat

definition set_readyState :: "nat \<Rightarrow> readyState \<Rightarrow> notifier \<Rightarrow> notifier" where
  "set_readyState i r st = st\<lparr>sockets := (sockets st)[i := (sockets st ! i)\<lparr>readyState := r\<rparr>]\<rparr>"

fun step :: "'m env \<Rightarrow> event \<Rightarrow> notifier \<Rightarrow> 'm call list \<times> notifier" where
  "step env (CallConnect token) st = ([], connectNotifier env token st)"
| "step env CallDisconnect st = ([], snd (disconnectNotifier st))"
| "step env (TimerFires n token) st =
     (if n \<in> fst ` set (intervals st) then ([], checkSocketAlive env token st) else ([], st))"
| "step env (SocketOpen i) st =
     (if i < length (sockets st) \<and> readyState (sockets st ! i) = CONNECTING
      then (let st1 = set_readyState i OPEN st
            in ([], if has_onopen (sockets st1 ! i) then onopen st1 else st1))
      else ([], st))"
| "step env (SocketMessage i message) st =
     (if i < length (sockets st) \<and> readyState (sockets st ! i) = OPEN
         \<and> has_onmessage (sockets st ! i)
      then snd (onmessage env message st)
      else ([], st))"
| "step env (SocketClose i code) st =
     (if i < length (sockets st) \<and> readyState (sockets st ! i) \<noteq> CLOSED
      then (let st1 = set_readyState i CLOSED st
            in if has_onclose (sockets st1 ! i) then onclose code st1 else ([], st1))
      else ([], st))"

text \<open>A run: the calls made while the events happen in order, and the state at the end.\<close>

fun run :: "'m env \<Rightarrow> event list \<Rightarrow> notifier \<Rightarrow> 'm call list \<times> notifier" where
  "run env [] st = ([], st)"
| "run env (e # es) st =
     (let (calls, st1) = step env e st;
          (calls', st2) = run env es st1
      in (calls @ calls', st2))"

subsection \<open>Messages by type, well-formed stores and an example configuration\<close>

text \<open>
  A message has type \<open>t\<close> when it parses and \<^verbatim>\<open>body.type\<close> is the string \<open>t\<close>; its
  data is \<^verbatim>\<open>body.data\<close>. \<open>received_on i t evs\<close> says that a message of type \<open>t\<close> is
  among the events of socket \<open>i\<close>.
\<close>

definition has_type :: "string \<Rightarrow> message \<Rightarrow> bool" where
  "has_type t message =
     (case message of
        Unparsable \<Rightarrow> False
      | Parsed body \<Rightarrow> property (Some body) ''type'' = Inr (Some (JStr t)))"

definition message_data :: "message \<Rightarrow> json option" where
  "message_data message =
     (case message of
        Unparsable \<Rightarrow> None
      | Parsed body \<Rightarrow> (case property (Some body) ''data'' of Inl e \<Rightarrow> None | Inr d \<Rightarrow> d))"

definition received_on :: "nat \<Rightarrow> string \<Rightarrow> event list \<Rightarrow> bool" where
  "received_on i t evs =
     list_ex (\<lambda>e. case e of SocketMessage j m \<Rightarrow> j = i \<and> has_type t m | _ \<Rightarrow> False) evs"

text \<open>
  In every state the notifier reaches, \<^verbatim>\<open>ws\<close> refers to a socket of the store and
  every socket has its open and message handlers, which are assigned when it is created.
\<close>

definition store_ok :: "notifier \<Rightarrow> bool" where
  "store_ok st \<longleftrightarrow>
     (\<forall>i. ws st = Some i \<longrightarrow> i < length (sockets st))
     \<and> (\<forall>i < length (sockets st). has_onmessage (sockets st ! i) \<and> has_onopen (sockets st ! i))"

text \<open>
  A configuration whose model constructors return the wire value as it is, and three
  well-formed messages.
\<close>

definition example_env :: "json env" where
  "example_env = \<lparr>API_URL = ''https://mod.example'', UserModel = Inr, TagModel = Inr,
                   TaggingSensitivityModel = Inr, RuleModel = Inr, PreselectModel = Inr,
                   CategoryModel = Inr\<rparr>"

definition system_message :: message where
  "system_message = Parsed (JObj [(''type'', JStr ''system''),
     (''data'', JObj [(''users'', JArr []), (''tags'', JArr []),
                      (''taggingSensitivities'', JArr []), (''rules'', JArr []),
                      (''preselects'', JArr [])])])"

definition global_message :: message where
  "global_message = Parsed (JObj [(''type'', JStr ''global''),
     (''data'', JObj [(''categories'', JArr []), (''articles'', JArr [])])])"

definition user_message :: message where
  "user_message = Parsed (JObj [(''type'', JStr ''user''),
     (''data'', JObj [(''assignments'', JNum 3)])])"

section \<open>Verification\<close>

subsection \<open>URL sanitisation of articles\<close>

text \<open>
  C10. For an article record whose url is non-empty and starts with neither
  \<^verbatim>\<open>http://\<close> nor \<^verbatim>\<open>https://\<close>, \<^verbatim>\<open>ArticleModel\<close> returns the record with url
  \<^verbatim>\<open>null\<close>; for a record whose url starts with one of the two prefixes, or is empty
  (or already \<^verbatim>\<open>null\<close>), the url is returned as it is; in every case the result is the
  input record with at most the url field replaced, so all other fields are unchanged.
\<close>

theorem ArticleModel_sanitizes_url:
  fixes a :: IArticleAttributes
  shows "\<exists>r. ArticleModel (Some a) = Inr r
           \<and> r = a\<lparr>url := url r\<rparr>
           \<and> (\<forall>u. url a = Some u \<and> u \<noteq> [] \<and> \<not> prefix ''http://'' u \<and> \<not> prefix ''https://'' u
                  \<longrightarrow> url r = None)
           \<and> (\<forall>u. url a = Some u \<and> (u = [] \<or> prefix ''http://'' u \<or> prefix ''https://'' u)
                  \<longrightarrow> url r = Some u)
           \<and> (url a = None \<longrightarrow> url r = None)"
  by (cases "url a") (auto simp: ArticleModel_def truthy_string_def Let_def)

theorem ArticleModel_sanitizes_url_witness:
  "ArticleModel (Some \<lparr>id' = ''7'', sourceCreatedAt = ''2019-01-01'', updatedAt = ''2019-01-02'',
       title = ''t'', text' = ''x'', url = Some ''javascript:alert(1)'', categoryId = ''3'',
       allCount = 2, unprocessedCount = 0, unmoderatedCount = 1, moderatedCount = 1,
       deferredCount = 0, approvedCount = 1, highlightedCount = 0, rejectedCount = 0,
       flaggedCount = 0, batchedCount = 0, automatedCount = 0, lastModeratedAt = ''2019-01-02'',
       assignedModerators = [''5''], isCommentingEnabled = True, isAutoModerated = False\<rparr>)
   = Inr \<lparr>id' = ''7'', sourceCreatedAt = ''2019-01-01'', updatedAt = ''2019-01-02'',
       title = ''t'', text' = ''x'', url = None, categoryId = ''3'',
       allCount = 2, unprocessedCount = 0, unmoderatedCount = 1, moderatedCount = 1,
       deferredCount = 0, approvedCount = 1, highlightedCount = 0, rejectedCount = 0,
       flaggedCount = 0, batchedCount = 0, automatedCount = 0, lastModeratedAt = ''2019-01-02'',
       assignedModerators = [''5''], isCommentingEnabled = True, isAutoModerated = False\<rparr>"
  using ArticleModel_sanitizes_url [of "\<lparr>id' = ''7'', sourceCreatedAt = ''2019-01-01'',
       updatedAt = ''2019-01-02'',
       title = ''t'', text' = ''x'', url = Some ''javascript:alert(1)'', categoryId = ''3'',
       allCount = 2, unprocessedCount = 0, unmoderatedCount = 1, moderatedCount = 1,
       deferredCount = 0, approvedCount = 1, highlightedCount = 0, rejectedCount = 0,
       flaggedCount = 0, batchedCount = 0, automatedCount = 0, lastModeratedAt = ''2019-01-02'',
       assignedModerators = [''5''], isCommentingEnabled = True, isAutoModerated = False\<rparr>"]
  by auto

subsection \<open>Batch comment actions\<close>

text \<open>
  C9. Each of the ten batch comment-action requests (highlight, reset, approve,
  approve-flags, resolve-flags, defer, reject, reject-flags, tag, tagCommentSummaryScores)
  issues no request for an empty list of comment ids, and for a non-empty list issues
  exactly one POST to a commentActions URL whose body carries all the ids, in order.
\<close>

theorem batch_comment_action_requests:
  assumes "f \<in> {highlightCommentsRequest A, resetCommentsRequest A, approveCommentsRequest A,
                 approveFlagsAndCommentsRequest A, resolveFlagsRequest A, deferCommentsRequest A,
                 rejectCommentsRequest A, rejectFlagsAndCommentsRequest A,
                 (\<lambda>ids. tagCommentsRequest A ids tagId),
                 (\<lambda>ids. tagCommentSummaryScoresRequest A ids tagId)}"
  shows "f [] = []
       \<and> (ids \<noteq> [] \<longrightarrow>
            (\<exists>path. f ids =
               [Request POST (serviceURL A ''commentActions'' (Some path) None)
                  (Some (JObj [(''data'', JArr (map JStr ids)),
                               (''runImmediately'', JBool True)]))]))"
  using assms
  by (auto simp: makeCommentAction_def highlightCommentsRequest_def resetCommentsRequest_def
      approveCommentsRequest_def approveFlagsAndCommentsRequest_def resolveFlagsRequest_def
      deferCommentsRequest_def rejectCommentsRequest_def rejectFlagsAndCommentsRequest_def
      tagCommentsRequest_def tagCommentSummaryScoresRequest_def)

theorem batch_comment_action_requests_witness:
  "approveCommentsRequest ''https://mod.example'' [] = []
   \<and> (\<exists>path. approveCommentsRequest ''https://mod.example'' [''12'', ''15''] =
        [Request POST (serviceURL ''https://mod.example'' ''commentActions'' (Some path) None)
           (Some (JObj [(''data'', JArr [JStr ''12'', JStr ''15'']),
                        (''runImmediately'', JBool True)]))])"
  using batch_comment_action_requests
    [of "approveCommentsRequest ''https://mod.example''" "''https://mod.example''" "''1''"
        "[''12'', ''15'']"]
  by simp

subsection \<open>Comment-action endpoints\<close>

text \<open>
  C5 as stated fails: the endpoints the service requests are not contained in approve,
  reject, defer and highlight. A reset of one comment goes to \<^verbatim>\<open>/reset\<close>.
\<close>

theorem comment_action_endpoints_counterexample:
  "resetCommentsRequest ''https://mod.example'' [''7''] =
     [Request POST ''https://mod.example/services/commentActions/reset''
        (Some (JObj [(''data'', JArr [JStr ''7'']), (''runImmediately'', JBool True)]))]
   \<and> commentActionRequests ''https://mod.example'' (ResetComments [''7'']) =
       resetCommentsRequest ''https://mod.example'' [''7'']
   \<and> ''https://mod.example/services/commentActions/reset'' \<notin>
       {serviceURL ''https://mod.example'' ''commentActions'' (Some ''/approve'') None,
        serviceURL ''https://mod.example'' ''commentActions'' (Some ''/reject'') None,
        serviceURL ''https://mod.example'' ''commentActions'' (Some ''/defer'') None,
        serviceURL ''https://mod.example'' ''commentActions'' (Some ''/highlight'') None}"
  by (simp add: resetCommentsRequest_def makeCommentAction_def serviceURL_def
      SERVICES_URL_def serializeParams_def)

lemma makeCommentAction_url:
  "r \<in> set (makeCommentAction A path ids)
   \<Longrightarrow> request_url r = serviceURL A ''commentActions'' (Some path) None"
  by (simp add: makeCommentAction_def split: if_splits)

text \<open>
  C5, amended. The four outcomes approve, reject, defer and highlight each have a batch
  endpoint, and every request of the comment-action interface goes to a commentActions
  URL whose path is one of: the eight fixed batch paths \<^verbatim>\<open>/highlight\<close>, \<^verbatim>\<open>/reset\<close>,
  \<^verbatim>\<open>/approve\<close>, \<^verbatim>\<open>/approve-flags\<close>, \<^verbatim>\<open>/resolve-flags\<close>, \<^verbatim>\<open>/defer\<close>, \<^verbatim>\<open>/reject\<close>,
  \<^verbatim>\<open>/reject-flags\<close>; the two tagging batch paths \<^verbatim>\<open>/tag/<tagId>\<close> and
  \<^verbatim>\<open>/tagCommentSummaryScores/<tagId>\<close>; or a per-comment path under
  \<^verbatim>\<open>/<commentId>/scores\<close> or \<^verbatim>\<open>/<commentId>/tagCommentSummaryScores/<tagId>\<close>.
\<close>

theorem comment_action_endpoints:
  "(ids \<noteq> [] \<longrightarrow>
      map request_url (commentActionRequests A (ApproveComments ids)) =
        [serviceURL A ''commentActions'' (Some ''/approve'') None]
    \<and> map request_url (commentActionRequests A (RejectComments ids)) =
        [serviceURL A ''commentActions'' (Some ''/reject'') None]
    \<and> map request_url (commentActionRequests A (DeferComments ids)) =
        [serviceURL A ''commentActions'' (Some ''/defer'') None]
    \<and> map request_url (commentActionRequests A (HighlightComments ids)) =
        [serviceURL A ''commentActions'' (Some ''/highlight'') None])
   \<and> (r \<in> set (commentActionRequests A c) \<longrightarrow>
       (\<exists>p. request_url r = serviceURL A ''commentActions'' (Some p) None
          \<and> (p \<in> {''/highlight'', ''/reset'', ''/approve'', ''/approve-flags'',
                   ''/resolve-flags'', ''/defer'', ''/reject'', ''/reject-flags''}
             \<or> (\<exists>tagId. p = ''/tag/'' @ tagId \<or> p = ''/tagCommentSummaryScores/'' @ tagId)
             \<or> (\<exists>commentId rest. p = ''/'' @ commentId @ ''/scores'' @ rest)
             \<or> (\<exists>commentId tagId.
                   p = ''/'' @ commentId @ ''/tagCommentSummaryScores/'' @ tagId @ ''/confirm''
                 \<or> p = ''/'' @ commentId @ ''/tagCommentSummaryScores/'' @ tagId @ ''/reject''))))"
proof (intro conjI impI)
  assume "r \<in> set (commentActionRequests A c)"
  then show "\<exists>p. request_url r = serviceURL A ''commentActions'' (Some p) None
          \<and> (p \<in> {''/highlight'', ''/reset'', ''/approve'', ''/approve-flags'',
                   ''/resolve-flags'', ''/defer'', ''/reject'', ''/reject-flags''}
             \<or> (\<exists>tagId. p = ''/tag/'' @ tagId \<or> p = ''/tagCommentSummaryScores/'' @ tagId)
             \<or> (\<exists>commentId rest. p = ''/'' @ commentId @ ''/scores'' @ rest)
             \<or> (\<exists>commentId tagId.
                   p = ''/'' @ commentId @ ''/tagCommentSummaryScores/'' @ tagId @ ''/confirm''
                 \<or> p = ''/'' @ commentId @ ''/tagCommentSummaryScores/'' @ tagId @ ''/reject''))"
  proof (cases c)
    case (DeleteCommentScore cid sid)
    with \<open>r \<in> set (commentActionRequests A c)\<close>
    have "request_url r = serviceURL A ''commentActions''
            (Some (''/'' @ cid @ ''/scores'' @ (''/'' @ sid))) None"
      by (simp add: deleteCommentScoreRequest_def)
    then show ?thesis by blast
  next
    case (TagCommentsAnnotation cid t s e)
    with \<open>r \<in> set (commentActionRequests A c)\<close>
    have "request_url r = serviceURL A ''commentActions''
            (Some (''/'' @ cid @ ''/scores'' @ [])) None"
      by (simp add: tagCommentsAnnotationRequest_def)
    then show ?thesis by blast
  next
    case (ConfirmCommentScore cid sid)
    with \<open>r \<in> set (commentActionRequests A c)\<close>
    have "request_url r = serviceURL A ''commentActions''
            (Some (''/'' @ cid @ ''/scores'' @ (''/'' @ sid @ ''/confirm''))) None"
      by (simp add: confirmCommentScoreRequest_def)
    then show ?thesis by blast
  next
    case (RejectCommentScore cid sid)
    with \<open>r \<in> set (commentActionRequests A c)\<close>
    have "request_url r = serviceURL A ''commentActions''
            (Some (''/'' @ cid @ ''/scores'' @ (''/'' @ sid @ ''/reject''))) None"
      by (simp add: rejectCommentScoreRequest_def)
    then show ?thesis by blast
  next
    case (ResetCommentScore cid sid)
    with \<open>r \<in> set (commentActionRequests A c)\<close>
    have "request_url r = serviceURL A ''commentActions''
            (Some (''/'' @ cid @ ''/scores'' @ (''/'' @ sid @ ''/reset''))) None"
      by (simp add: resetCommentScoreRequest_def)
    then show ?thesis by blast
  next
    case (ConfirmCommentSummaryScore cid t)
    with \<open>r \<in> set (commentActionRequests A c)\<close>
    have "request_url r = serviceURL A ''commentActions''
            (Some (''/'' @ cid @ ''/tagCommentSummaryScores/'' @ t @ ''/confirm'')) None"
      by (simp add: confirmCommentSummaryScoreRequest_def makeCommentActionForId_def)
    then show ?thesis by blast
  next
    case (RejectCommentSummaryScore cid t)
    with \<open>r \<in> set (commentActionRequests A c)\<close>
    have "request_url r = serviceURL A ''commentActions''
            (Some (''/'' @ cid @ ''/tagCommentSummaryScores/'' @ t @ ''/reject'')) None"
      by (simp add: rejectCommentSummaryScoreRequest_def makeCommentActionForId_def)
    then show ?thesis by blast
  next
    case (TagComments ids t)
    with \<open>r \<in> set (commentActionRequests A c)\<close>
    have "request_url r = serviceURL A ''commentActions'' (Some (''/tag/'' @ t)) None"
      by (simp add: tagCommentsRequest_def makeCommentAction_url)
    then show ?thesis by blast
  next
    case (TagCommentSummaryScores ids t)
    with \<open>r \<in> set (commentActionRequests A c)\<close>
    have "request_url r =
            serviceURL A ''commentActions'' (Some (''/tagCommentSummaryScores/'' @ t)) None"
      by (simp add: tagCommentSummaryScoresRequest_def makeCommentAction_url)
    then show ?thesis by blast
  next
    case (HighlightComments ids)
    with \<open>r \<in> set (commentActionRequests A c)\<close>
    have "request_url r = serviceURL A ''commentActions'' (Some ''/highlight'') None"
      by (simp add: highlightCommentsRequest_def makeCommentAction_url)
    then show ?thesis by (intro exI [of _ "''/highlight''"]) simp
  next
    case (ResetComments ids)
    with \<open>r \<in> set (commentActionRequests A c)\<close>
    have "request_url r = serviceURL A ''commentActions'' (Some ''/reset'') None"
      by (simp add: resetCommentsRequest_def makeCommentAction_url)
    then show ?thesis by (intro exI [of _ "''/reset''"]) simp
  next
    case (ApproveComments ids)
    with \<open>r \<in> set (commentActionRequests A c)\<close>
    have "request_url r = serviceURL A ''commentActions'' (Some ''/approve'') None"
      by (simp add: approveCommentsRequest_def makeCommentAction_url)
    then show ?thesis by (intro exI [of _ "''/approve''"]) simp
  next
    case (ApproveFlagsAndComments ids)
    with \<open>r \<in> set (commentActionRequests A c)\<close>
    have "request_url r = serviceURL A ''commentActions'' (Some ''/approve-flags'') None"
      by (simp add: approveFlagsAndCommentsRequest_def makeCommentAction_url)
    then show ?thesis by (intro exI [of _ "''/approve-flags''"]) simp
  next
    case (ResolveFlags ids)
    with \<open>r \<in> set (commentActionRequests A c)\<close>
    have "request_url r = serviceURL A ''commentActions'' (Some ''/resolve-flags'') None"
      by (simp add: resolveFlagsRequest_def makeCommentAction_url)
    then show ?thesis by (intro exI [of _ "''/resolve-flags''"]) simp
  next
    case (DeferComments ids)
    with \<open>r \<in> set (commentActionRequests A c)\<close>
    have "request_url r = serviceURL A ''commentActions'' (Some ''/defer'') None"
      by (simp add: deferCommentsRequest_def makeCommentAction_url)
    then show ?thesis by (intro exI [of _ "''/defer''"]) simp
  next
    case (RejectComments ids)
    with \<open>r \<in> set (commentActionRequests A c)\<close>
    have "request_url r = serviceURL A ''commentActions'' (Some ''/reject'') None"
      by (simp add: rejectCommentsRequest_def makeCommentAction_url)
    then show ?thesis by (intro exI [of _ "''/reject''"]) simp
  next
    case (RejectFlagsAndComments ids)
    with \<open>r \<in> set (commentActionRequests A c)\<close>
    have "request_url r = serviceURL A ''commentActions'' (Some ''/reject-flags'') None"
      by (simp add: rejectFlagsAndCommentsRequest_def makeCommentAction_url)
    then show ?thesis by (intro exI [of _ "''/reject-flags''"]) simp
  qed
qed (simp_all add: makeCommentAction_def highlightCommentsRequest_def approveCommentsRequest_def
       deferCommentsRequest_def rejectCommentsRequest_def)

theorem comment_action_endpoints_witness:
  "map request_url (commentActionRequests ''https://mod.example'' (ApproveComments [''7''])) =
     [''https://mod.example/services/commentActions/approve'']
   \<and> (\<exists>p. ''https://mod.example/services/commentActions/reset'' =
            serviceURL ''https://mod.example'' ''commentActions'' (Some p) None)"
proof -
  have r: "Request POST ''https://mod.example/services/commentActions/reset''
             (Some (JObj [(''data'', JArr [JStr ''7'']), (''runImmediately'', JBool True)]))
           \<in> set (commentActionRequests ''https://mod.example'' (ResetComments [''7'']))"
    by (simp add: resetCommentsRequest_def makeCommentAction_def serviceURL_def
        SERVICES_URL_def serializeParams_def)
  have n: "[''7''] \<noteq> ([] :: string list)" by simp
  from comment_action_endpoints [of "[''7'']" "''https://mod.example''" _ "ResetComments [''7'']"] r n
  show ?thesis
    by (auto simp: serviceURL_def SERVICES_URL_def serializeParams_def)
qed

subsection \<open>Model-name validation\<close>

text \<open>
  The nine listed names pass the validation, and a name that is neither listed nor a
  property of \<^verbatim>\<open>Object.prototype\<close> is rejected before any request.
\<close>

lemma validateModelName_listed:
  "name \<in> {''articles'', ''categories'', ''comment_scores'', ''comments'', ''moderation_rules'',
            ''preselects'', ''tagging_sensitivities'', ''tags'', ''users''}
   \<Longrightarrow> validateModelName name = Inr ()"
  by (auto simp: validateModelName_def property_truthy_def VALID_MODEL_NAMES_LOOKUP_def)

lemma validateModelName_iff:
  "validateModelName name = Inr () \<longleftrightarrow>
     name \<in> {''articles'', ''categories'', ''comment_scores'', ''comments'', ''moderation_rules'',
              ''preselects'', ''tagging_sensitivities'', ''tags'', ''users''}
     \<or> name \<in> set Object_prototype"
  by (simp add: validateModelName_def property_truthy_def VALID_MODEL_NAMES_LOOKUP_def)

lemma listed_names_proceed:
  assumes "name \<in> {''articles'', ''categories'', ''comment_scores'', ''comments'',
             ''moderation_rules'', ''preselects'', ''tagging_sensitivities'', ''tags'', ''users''}"
  shows "\<exists>b. createModel A name m = Inr (Request POST (A @ ''/rest/'' @ name) b)"
    and "\<exists>b. updateModel A name i m only = Inr (Request PATCH (A @ ''/rest/'' @ name @ ''/'' @ i) b)"
    and "destroyModel A name i = Inr (Request DELETE (A @ ''/rest/'' @ name @ ''/'' @ i) None)"
  using validateModelName_listed [OF assms]
  by (simp_all add: createModel_def updateModel_def destroyModel_def listURL_def modelURL_def
      REST_URL_def serializeParams_def Let_def)

lemma unknown_names_rejected:
  assumes "name \<notin> {''articles'', ''categories'', ''comment_scores'', ''comments'',
             ''moderation_rules'', ''preselects'', ''tagging_sensitivities'', ''tags'', ''users''}"
      and "name \<notin> set Object_prototype"
  shows "createModel A name m = Inl (Error (invalid_name_message name))"
    and "updateModel A name i m only = Inl (Error (invalid_name_message name))"
    and "destroyModel A name i = Inl (Error (invalid_name_message name))"
proof -
  from assms have "validateModelName name = Inl (Error (invalid_name_message name))"
    using validateModelName_iff [of name] by (auto simp: validateModelName_def)
  then show "createModel A name m = Inl (Error (invalid_name_message name))"
    and "updateModel A name i m only = Inl (Error (invalid_name_message name))"
    and "destroyModel A name i = Inl (Error (invalid_name_message name))"
    by (simp_all add: createModel_def updateModel_def destroyModel_def)
qed

text \<open>
  C8 does not hold of the code: \<^verbatim>\<open>constructor\<close> is none of the nine names, but
  \<^verbatim>\<open>VALID_MODEL_NAMES_LOOKUP['constructor']\<close> is the inherited
  \<^verbatim>\<open>Object.prototype.constructor\<close>, a function and so truthy. The validation returns
  without throwing, and the three functions issue their requests to
  \<^verbatim>\<open>/rest/constructor\<close>.
\<close>

theorem model_name_validation_bypass:
  "validateModelName ''constructor'' = Inr ()
   \<and> createModel A ''constructor'' m =
       Inr (Request POST (A @ ''/rest/constructor'')
              (Some (JObj [(''data'', JObj [(''attributes'', JObj (delete_id m)),
                                            (''type'', JStr ''constructor'')])])))
   \<and> updateModel A ''constructor'' i m None =
       Inr (Request PATCH (A @ ''/rest/constructor/'' @ i)
              (Some (JObj [(''data'', JObj [(''attributes'', JObj (delete_id m)),
                                            (''type'', JStr ''constructor''),
                                            (''id'', JStr i)])])))
   \<and> destroyModel A ''constructor'' i = Inr (Request DELETE (A @ ''/rest/constructor/'' @ i) None)"
proof -
  have v: "validateModelName ''constructor'' = Inr ()"
    by (simp add: validateModelName_def property_truthy_def VALID_MODEL_NAMES_LOOKUP_def
        Object_prototype_def)
  then show ?thesis
    by (simp add: createModel_def updateModel_def destroyModel_def listURL_def modelURL_def
        REST_URL_def serializeParams_def Let_def)
qed

subsection \<open>The notifier: status signals\<close>

lemmas notifier_defs =
  connectNotifier_def checkSocketAlive_def setInterval_def disconnectNotifier_def
  clearInterval_def close_socket_def onopen_def onclose_def set_readyState_def

lemma status_distinct [simp]:
  "STATUS_UP \<noteq> STATUS_DOWN" "STATUS_UP \<noteq> STATUS_RESET" "STATUS_DOWN \<noteq> STATUS_RESET"
  "STATUS_DOWN \<noteq> STATUS_UP" "STATUS_RESET \<noteq> STATUS_UP" "STATUS_RESET \<noteq> STATUS_DOWN"
  by (simp_all add: STATUS_UP_def STATUS_DOWN_def STATUS_RESET_def)

text \<open>The message handler, case by case.\<close>

lemma property_data:
  "property (Some body) ''type'' = Inr t \<Longrightarrow>
     property (Some body) ''data'' = Inr (message_data (Parsed body))"
  by (cases body) (simp_all add: property_def message_data_def)

lemma onmessage_outcome:
  "onmessage env m st =
     (if m = Unparsable then (Some SyntaxError, [], st)
      else if m = Parsed JNull then (Some TypeError, [], st)
      else if has_type ''system'' m then
        (case packSystemData env (message_data m) of
           Inl e \<Rightarrow> (Some e, [], st)
         | Inr p \<Rightarrow> signal_up [systemDataHandler p] (st\<lparr>gotSystem := True\<rparr>))
      else if has_type ''global'' m then
        (case packArticleData env (message_data m) of
           Inl e \<Rightarrow> (Some e, [], st)
         | Inr p \<Rightarrow> signal_up [allArticlesDataHandler p] (st\<lparr>gotArticles := True\<rparr>))
      else if has_type ''user'' m then
        signal_up [perUserDataHandler (message_data m)] (st\<lparr>gotUser := True\<rparr>)
      else if has_type ''article-update'' m then
        (case packArticleUpdate env (message_data m) of
           Inl e \<Rightarrow> (Some e, [], st)
         | Inr p \<Rightarrow> signal_up [articleUpdateHandler p] st)
      else signal_up [] st)"
proof (cases m)
  case Unparsable
  then show ?thesis by (simp add: onmessage_def)
next
  case (Parsed body)
  show ?thesis
  proof (cases "property (Some body) ''type''")
    case (Inl e)
    then have "body = JNull" "e = TypeError"
      by (cases body; simp add: property_def)+
    with Parsed show ?thesis
      by (simp add: onmessage_def property_def)
  next
    case (Inr t)
    then have nn: "body \<noteq> JNull"
      by (auto simp: property_def)
    from property_data [OF Inr] Inr Parsed nn show ?thesis
      by (simp add: onmessage_def has_type_def)
  qed
qed


lemma onmessage_frame:
  "ws (snd (snd (onmessage env m st))) = ws st"
  "sockets (snd (snd (onmessage env m st))) = sockets st"
  "intervals (snd (snd (onmessage env m st))) = intervals st"
  "intervalTimer (snd (snd (onmessage env m st))) = intervalTimer st"
  "timerCount (snd (snd (onmessage env m st))) = timerCount st"
  by (simp_all add: onmessage_outcome signal_up_def split: sum.splits)

lemma onmessage_gotSystem:
  "gotSystem (snd (snd (onmessage env m st))) \<longleftrightarrow>
     gotSystem st \<or> (\<exists>x. systemDataHandler x \<in> set (fst (snd (onmessage env m st))))"
  by (simp add: onmessage_outcome signal_up_def split: sum.splits)

lemma onmessage_gotArticles:
  "gotArticles (snd (snd (onmessage env m st))) \<longleftrightarrow>
     gotArticles st \<or> (\<exists>x. allArticlesDataHandler x \<in> set (fst (snd (onmessage env m st))))"
  by (simp add: onmessage_outcome signal_up_def split: sum.splits)

lemma onmessage_gotUser:
  "gotUser (snd (snd (onmessage env m st))) \<longleftrightarrow>
     gotUser st \<or> (\<exists>x. perUserDataHandler x \<in> set (fst (snd (onmessage env m st))))"
  by (simp add: onmessage_outcome signal_up_def split: sum.splits)

lemma onmessage_calls_type:
  "systemDataHandler x \<in> set (fst (snd (onmessage env m st))) \<Longrightarrow> has_type ''system'' m"
  "allArticlesDataHandler y \<in> set (fst (snd (onmessage env m st))) \<Longrightarrow> has_type ''global'' m"
  "perUserDataHandler z \<in> set (fst (snd (onmessage env m st))) \<Longrightarrow> has_type ''user'' m"
  by (simp_all add: onmessage_outcome signal_up_def split: sum.splits if_splits)

lemma onmessage_up:
  assumes "websocketStateHandler STATUS_UP \<in> set (fst (snd (onmessage env m st)))"
  shows "\<not> socketUp st" and "socketUp (snd (snd (onmessage env m st)))"
    and "gotSystem (snd (snd (onmessage env m st)))"
    and "gotArticles (snd (snd (onmessage env m st)))"
    and "gotUser (snd (snd (onmessage env m st)))"
    and "count_list (fst (snd (onmessage env m st))) (websocketStateHandler STATUS_UP) = 1"
  using assms
  by (simp_all add: onmessage_outcome signal_up_def split: sum.splits if_splits)

lemma onmessage_socketUp_kept:
  "socketUp st \<Longrightarrow> socketUp (snd (snd (onmessage env m st)))"
  by (simp add: onmessage_outcome signal_up_def split: sum.splits)


lemma run_append:
  "run env (xs @ ys) st =
     (fst (run env xs st) @ fst (run env ys (snd (run env xs st))),
      snd (run env ys (snd (run env xs st))))"
  by (induction xs arbitrary: st) (simp_all add: split_beta Let_def)

lemma run_snoc:
  "run env (xs @ [e]) st =
     (fst (run env xs st) @ fst (step env e (snd (run env xs st))),
      snd (step env e (snd (run env xs st))))"
  by (simp add: run_append split_beta)

text \<open>What one event does to the flags.\<close>

lemma step_gotSystem:
  "gotSystem (snd (step env e st)) \<longleftrightarrow>
     gotSystem st \<or> (\<exists>x. systemDataHandler x \<in> set (fst (step env e st)))"
proof (cases e)
  case (SocketMessage i m)
  then show ?thesis using onmessage_gotSystem [of env m st] by simp
qed (auto simp: notifier_defs Let_def split: option.splits if_splits)

lemma step_gotArticles:
  "gotArticles (snd (step env e st)) \<longleftrightarrow>
     gotArticles st \<or> (\<exists>x. allArticlesDataHandler x \<in> set (fst (step env e st)))"
proof (cases e)
  case (SocketMessage i m)
  then show ?thesis using onmessage_gotArticles [of env m st] by simp
qed (auto simp: notifier_defs Let_def split: option.splits if_splits)

lemma step_gotUser:
  "gotUser (snd (step env e st)) \<longleftrightarrow>
     gotUser st \<or> (\<exists>x. perUserDataHandler x \<in> set (fst (step env e st)))"
proof (cases e)
  case (SocketMessage i m)
  then show ?thesis using onmessage_gotUser [of env m st] by simp
qed (auto simp: notifier_defs Let_def split: option.splits if_splits)

lemma step_system_call:
  assumes "systemDataHandler x \<in> set (fst (step env e st))"
  shows "\<exists>i m. e = SocketMessage i m \<and> has_type ''system'' m"
proof (cases e)
  case (SocketMessage i m)
  with assms show ?thesis using onmessage_calls_type(1) [of x env m st]
    by (simp split: if_splits)
qed (use assms in \<open>auto simp: notifier_defs Let_def split: option.splits if_splits\<close>)

lemma step_articles_call:
  assumes "allArticlesDataHandler x \<in> set (fst (step env e st))"
  shows "\<exists>i m. e = SocketMessage i m \<and> has_type ''global'' m"
proof (cases e)
  case (SocketMessage i m)
  with assms show ?thesis using onmessage_calls_type(2) [of x env m st]
    by (simp split: if_splits)
qed (use assms in \<open>auto simp: notifier_defs Let_def split: option.splits if_splits\<close>)

lemma step_user_call:
  assumes "perUserDataHandler x \<in> set (fst (step env e st))"
  shows "\<exists>i m. e = SocketMessage i m \<and> has_type ''user'' m"
proof (cases e)
  case (SocketMessage i m)
  with assms show ?thesis using onmessage_calls_type(3) [of x env m st]
    by (simp split: if_splits)
qed (use assms in \<open>auto simp: notifier_defs Let_def split: option.splits if_splits\<close>)

lemma step_up:
  assumes "websocketStateHandler STATUS_UP \<in> set (fst (step env e st))"
  shows "\<not> socketUp st" and "socketUp (snd (step env e st))"
    and "gotSystem (snd (step env e st))" and "gotArticles (snd (step env e st))"
    and "gotUser (snd (step env e st))"
    and "count_list (fst (step env e st)) (websocketStateHandler STATUS_UP) = 1"
    and "\<exists>i m. e = SocketMessage i m \<and> i < length (sockets st)
           \<and> readyState (sockets st ! i) = OPEN"
proof -
  have "\<not> socketUp st \<and> socketUp (snd (step env e st))
      \<and> gotSystem (snd (step env e st)) \<and> gotArticles (snd (step env e st))
      \<and> gotUser (snd (step env e st))
      \<and> count_list (fst (step env e st)) (websocketStateHandler STATUS_UP) = 1
      \<and> (\<exists>i m. e = SocketMessage i m \<and> i < length (sockets st)
           \<and> readyState (sockets st ! i) = OPEN)"
  proof (cases e)
    case (SocketMessage i m)
    with assms onmessage_up [of env m st] show ?thesis
      by (simp split: if_splits)
  qed (use assms in \<open>auto simp: notifier_defs Let_def split: option.splits if_splits\<close>)
  then show "\<not> socketUp st" and "socketUp (snd (step env e st))"
    and "gotSystem (snd (step env e st))" and "gotArticles (snd (step env e st))"
    and "gotUser (snd (step env e st))"
    and "count_list (fst (step env e st)) (websocketStateHandler STATUS_UP) = 1"
    and "\<exists>i m. e = SocketMessage i m \<and> i < length (sockets st)
           \<and> readyState (sockets st ! i) = OPEN"
    by blast+
qed

lemma step_socketUp_kept:
  "socketUp st \<Longrightarrow> (\<forall>i code. e = SocketClose i code \<longrightarrow> code = 1005)
   \<Longrightarrow> socketUp (snd (step env e st))"
proof (cases e)
  case (SocketMessage i m)
  assume "socketUp st"
  with SocketMessage show ?thesis using onmessage_socketUp_kept [of st env m] by simp
qed (auto simp: notifier_defs Let_def split: option.splits if_splits)


lemma run_socketUp_kept:
  "socketUp st \<Longrightarrow> (\<forall>i code. SocketClose i code \<in> set evs \<longrightarrow> code = 1005)
   \<Longrightarrow> socketUp (snd (run env evs st))"
proof (induction evs arbitrary: st)
  case Nil
  then show ?case by simp
next
  case (Cons e es)
  from Cons.prems have "socketUp (snd (step env e st))"
    by (intro step_socketUp_kept) auto
  from Cons.IH [OF this] Cons.prems(2) show ?case
    by (simp add: split_beta)
qed

lemma run_flags_log:
  "gotSystem (snd (run env evs st)) \<longleftrightarrow>
     gotSystem st \<or> (\<exists>x. systemDataHandler x \<in> set (fst (run env evs st)))"
  "gotArticles (snd (run env evs st)) \<longleftrightarrow>
     gotArticles st \<or> (\<exists>x. allArticlesDataHandler x \<in> set (fst (run env evs st)))"
  "gotUser (snd (run env evs st)) \<longleftrightarrow>
     gotUser st \<or> (\<exists>x. perUserDataHandler x \<in> set (fst (run env evs st)))"
proof (induction evs arbitrary: st)
  case Nil
  { case 1 show ?case by simp }
  { case 2 show ?case by simp }
  { case 3 show ?case by simp }
next
  case (Cons e es)
  { case 1 show ?case
      using Cons.IH(1) [of "snd (step env e st)"] step_gotSystem [of env e st]
      by (auto simp: split_beta) }
  { case 2 show ?case
      using Cons.IH(2) [of "snd (step env e st)"] step_gotArticles [of env e st]
      by (auto simp: split_beta) }
  { case 3 show ?case
      using Cons.IH(3) [of "snd (step env e st)"] step_gotUser [of env e st]
      by (auto simp: split_beta) }
qed

lemma run_calls_events:
  "systemDataHandler x \<in> set (fst (run env evs st))
   \<Longrightarrow> \<exists>i m. SocketMessage i m \<in> set evs \<and> has_type ''system'' m"
  "allArticlesDataHandler y \<in> set (fst (run env evs st))
   \<Longrightarrow> \<exists>i m. SocketMessage i m \<in> set evs \<and> has_type ''global'' m"
  "perUserDataHandler z \<in> set (fst (run env evs st))
   \<Longrightarrow> \<exists>i m. SocketMessage i m \<in> set evs \<and> has_type ''user'' m"
proof (induction evs arbitrary: st)
  case Nil
  { case 1 then show ?case by simp }
  { case 2 then show ?case by simp }
  { case 3 then show ?case by simp }
next
  case (Cons e es)
  { case 1
    then have "systemDataHandler x \<in> set (fst (step env e st))
             \<or> systemDataHandler x \<in> set (fst (run env es (snd (step env e st))))"
      by (simp add: split_beta)
    then show ?case
      using step_system_call [of x env e st] Cons.IH(1) [of "snd (step env e st)"]
      by (elim disjE) (simp, blast, simp, blast) }
  { case 2
    then have "allArticlesDataHandler y \<in> set (fst (step env e st))
             \<or> allArticlesDataHandler y \<in> set (fst (run env es (snd (step env e st))))"
      by (simp add: split_beta)
    then show ?case
      using step_articles_call [of y env e st] Cons.IH(2) [of "snd (step env e st)"]
      by (elim disjE) (simp, blast, simp, blast) }
  { case 3
    then have "perUserDataHandler z \<in> set (fst (step env e st))
             \<or> perUserDataHandler z \<in> set (fst (run env es (snd (step env e st))))"
      by (simp add: split_beta)
    then show ?case
      using step_user_call [of z env e st] Cons.IH(3) [of "snd (step env e st)"]
      by (elim disjE) (simp, blast, simp, blast) }
qed

text \<open>
  C1, amended. Whenever the notifier signals \<^verbatim>\<open>STATUS_UP\<close>, a message of type
  \<^verbatim>\<open>system\<close>, one of type \<^verbatim>\<open>global\<close> and one of type \<^verbatim>\<open>user\<close> have been received and
  handed to their handlers since the module was loaded, on the signalling socket or on
  another one before; the event signals it once; and \<^verbatim>\<open>STATUS_UP\<close> is not signalled again before
  a socket has closed with a code other than 1005.
\<close>

theorem status_up_after_all_three_and_once:
  assumes up: "websocketStateHandler STATUS_UP \<in> set (fst (step env e (snd (run env evs init))))"
  shows "(\<exists>x. systemDataHandler x \<in> set (fst (run env (evs @ [e]) init)))
       \<and> (\<exists>x. allArticlesDataHandler x \<in> set (fst (run env (evs @ [e]) init)))
       \<and> (\<exists>x. perUserDataHandler x \<in> set (fst (run env (evs @ [e]) init)))
       \<and> (\<exists>i m. SocketMessage i m \<in> set (evs @ [e]) \<and> has_type ''system'' m)
       \<and> (\<exists>i m. SocketMessage i m \<in> set (evs @ [e]) \<and> has_type ''global'' m)
       \<and> (\<exists>i m. SocketMessage i m \<in> set (evs @ [e]) \<and> has_type ''user'' m)
       \<and> count_list (fst (step env e (snd (run env evs init)))) (websocketStateHandler STATUS_UP) = 1
       \<and> (\<forall>evs' e'.
            websocketStateHandler STATUS_UP
              \<in> set (fst (step env e' (snd (run env (evs @ e # evs') init))))
            \<longrightarrow> (\<exists>i code. SocketClose i code \<in> set evs' \<and> code \<noteq> 1005))"
proof -
  let ?st = "snd (run env evs init)"
  let ?log = "fst (run env (evs @ [e]) init)"
  have flags: "\<not> gotSystem init" "\<not> gotArticles init" "\<not> gotUser init"
    by (simp_all add: init_def)
  have after: "snd (run env (evs @ [e]) init) = snd (step env e ?st)"
    by (simp add: run_snoc)
  from step_up(3) [OF up] after flags(1) run_flags_log(1) [of env "evs @ [e]" init]
  have s: "\<exists>x. systemDataHandler x \<in> set ?log" by simp
  from step_up(4) [OF up] after flags(2) run_flags_log(2) [of env "evs @ [e]" init]
  have g: "\<exists>x. allArticlesDataHandler x \<in> set ?log" by simp
  from step_up(5) [OF up] after flags(3) run_flags_log(3) [of env "evs @ [e]" init]
  have u: "\<exists>x. perUserDataHandler x \<in> set ?log" by simp
  from s run_calls_events(1) [of _ env "evs @ [e]" init]
  have s': "\<exists>i m. SocketMessage i m \<in> set (evs @ [e]) \<and> has_type ''system'' m" by blast
  from g run_calls_events(2) [of _ env "evs @ [e]" init]
  have g': "\<exists>i m. SocketMessage i m \<in> set (evs @ [e]) \<and> has_type ''global'' m" by blast
  from u run_calls_events(3) [of _ env "evs @ [e]" init]
  have u': "\<exists>i m. SocketMessage i m \<in> set (evs @ [e]) \<and> has_type ''user'' m" by blast
  have again: "\<exists>i code. SocketClose i code \<in> set evs' \<and> code \<noteq> 1005"
    if a: "websocketStateHandler STATUS_UP
             \<in> set (fst (step env e' (snd (run env (evs @ e # evs') init))))" for evs' e'
  proof (rule ccontr)
    let ?st1 = "snd (step env e ?st)"
    have st: "snd (run env (evs @ e # evs') init) = snd (run env evs' ?st1)"
      by (simp add: run_append split_beta)
    assume "\<not> (\<exists>i code. SocketClose i code \<in> set evs' \<and> code \<noteq> 1005)"
    then have "\<forall>i code. SocketClose i code \<in> set evs' \<longrightarrow> code = 1005" by blast
    from run_socketUp_kept [OF step_up(2) [OF up] this]
    have "socketUp (snd (run env evs' ?st1))" .
    with step_up(1) [OF a] st show False by simp
  qed
  from s g u s' g' u' step_up(6) [OF up] again show ?thesis by blast
qed


lemmas run_eval =
  example_env_def system_message_def global_message_def user_message_def
  init_def notifier_defs onmessage_def signal_up_def property_def truthy_def
  packSystemData_def packArticleData_def packArticleUpdate_def and_then_def array_map_def
  has_type_def message_data_def received_on_def
  STATUS_UP_def STATUS_DOWN_def STATUS_RESET_def Let_def
  serviceURL_def SERVICES_URL_def serializeParams_def template_def replace_http_ws_def

text \<open>
  C1 as stated fails. The flags \<^verbatim>\<open>gotSystem\<close>, \<^verbatim>\<open>gotArticles\<close> and \<^verbatim>\<open>gotUser\<close> are
  module variables that no handler clears. After socket 0 has received the three messages
  and closed with code 1006, the next check opens socket 1, and the first message on it,
  here one of an unknown type, signals \<^verbatim>\<open>STATUS_UP\<close> although socket 1 has received no
  system, global or user message.
\<close>

theorem status_up_counterexample:
  "fst (step example_env (SocketMessage 1 (Parsed (JObj [(''type'', JStr ''ping'')])))
         (snd (run example_env
                 [CallConnect (Some ''tok''), SocketOpen 0,
                  SocketMessage 0 system_message, SocketMessage 0 global_message,
                  SocketMessage 0 user_message,
                  SocketClose 0 1006, TimerFires 0 (Some ''tok''), SocketOpen 1] init)))
     = [websocketStateHandler STATUS_UP]
   \<and> \<not> received_on 1 ''system''
         [CallConnect (Some ''tok''), SocketOpen 0,
          SocketMessage 0 system_message, SocketMessage 0 global_message,
          SocketMessage 0 user_message,
          SocketClose 0 1006, TimerFires 0 (Some ''tok''), SocketOpen 1,
          SocketMessage 1 (Parsed (JObj [(''type'', JStr ''ping'')]))]
   \<and> \<not> received_on 1 ''global''
         [CallConnect (Some ''tok''), SocketOpen 0,
          SocketMessage 0 system_message, SocketMessage 0 global_message,
          SocketMessage 0 user_message,
          SocketClose 0 1006, TimerFires 0 (Some ''tok''), SocketOpen 1,
          SocketMessage 1 (Parsed (JObj [(''type'', JStr ''ping'')]))]
   \<and> \<not> received_on 1 ''user''
         [CallConnect (Some ''tok''), SocketOpen 0,
          SocketMessage 0 system_message, SocketMessage 0 global_message,
          SocketMessage 0 user_message,
          SocketClose 0 1006, TimerFires 0 (Some ''tok''), SocketOpen 1,
          SocketMessage 1 (Parsed (JObj [(''type'', JStr ''ping'')]))]"
  by (simp add: run_eval)

theorem status_up_after_all_three_and_once_witness:
  "websocketStateHandler STATUS_UP \<in> set (fst (step example_env
       (SocketMessage 0 user_message)
       (snd (run example_env
              [CallConnect (Some ''tok''), SocketOpen 0, SocketMessage 0 system_message,
               SocketMessage 0 global_message] init))))
   \<and> (\<exists>x. systemDataHandler x \<in> set (fst (run example_env
         ([CallConnect (Some ''tok''), SocketOpen 0, SocketMessage 0 system_message,
           SocketMessage 0 global_message] @ [SocketMessage 0 user_message]) init)))
   \<and> (\<exists>i m. SocketMessage i m \<in> set
         ([CallConnect (Some ''tok''), SocketOpen 0, SocketMessage 0 system_message,
           SocketMessage 0 global_message] @ [SocketMessage 0 user_message])
         \<and> has_type ''global'' m)"
proof -
  let ?evs = "[CallConnect (Some ''tok''), SocketOpen 0, SocketMessage 0 system_message,
               SocketMessage 0 global_message]"
  have h1: "websocketStateHandler STATUS_UP \<in> set (fst (step example_env
              (SocketMessage 0 user_message) (snd (run example_env ?evs init))))"
    by (simp add: run_eval)
  note t = status_up_after_all_three_and_once [OF h1]
  from h1 t [THEN conjunct1] t [THEN conjunct2, THEN conjunct2, THEN conjunct2, THEN conjunct2,
     THEN conjunct1]
  show ?thesis by (intro conjI)
qed

subsection \<open>The notifier: dispatch of messages\<close>

text \<open>The store stays well formed.\<close>

lemma store_ok_init: "store_ok init"
  by (simp add: store_ok_def init_def)

lemma store_ok_step: "store_ok st \<Longrightarrow> store_ok (snd (step env e st))"
proof (cases e)
  case (SocketMessage i m)
  assume "store_ok st"
  with SocketMessage show ?thesis
    by (simp add: store_ok_def onmessage_frame)
qed (auto simp: store_ok_def notifier_defs Let_def nth_list_update nth_append
       split: option.splits if_splits)

lemma store_ok_run: "store_ok st \<Longrightarrow> store_ok (snd (run env evs st))"
  by (induction evs arbitrary: st) (simp_all add: split_beta store_ok_step)

lemma has_type_unique: "has_type a m \<Longrightarrow> has_type b m \<Longrightarrow> a = b"
  by (cases m) (simp_all add: has_type_def)

lemma has_type_parsed: "has_type a m \<Longrightarrow> m \<noteq> Unparsable \<and> m \<noteq> Parsed JNull"
  by (cases m) (auto simp: has_type_def property_def)

lemma signal_up_calls:
  "\<exists>up. fst (snd (signal_up cs st)) = cs @ up \<and> (up = [] \<or> up = [websocketStateHandler STATUS_UP])"
  by (simp add: signal_up_def)

text \<open>
  C2 as stated fails. The handler has no \<^verbatim>\<open>try\<close>, and \<^verbatim>\<open>packSystemData\<close> reads
  \<^verbatim>\<open>data.users\<close>: a message of type \<^verbatim>\<open>system\<close> whose data is \<^verbatim>\<open>null\<close> raises a TypeError
  before \<^verbatim>\<open>systemDataHandler\<close> is called, so it reaches no handler and changes nothing.
\<close>

theorem message_dispatch_counterexample:
  "step example_env
     (SocketMessage 0 (Parsed (JObj [(''type'', JStr ''system''), (''data'', JNull)])))
     (snd (run example_env [CallConnect (Some ''tok''), SocketOpen 0] init))
   = ([], snd (run example_env [CallConnect (Some ''tok''), SocketOpen 0] init))
   \<and> has_type ''system'' (Parsed (JObj [(''type'', JStr ''system''), (''data'', JNull)]))
   \<and> readyState (sockets (snd (run example_env [CallConnect (Some ''tok''), SocketOpen 0] init)) ! 0)
       = OPEN"
  by (simp add: run_eval)

text \<open>
  C2, amended. A message that arrives on an open socket of the notifier, parses, and
  whose payload the pack function of its type accepts is handed to exactly the one data
  handler its type names: \<^verbatim>\<open>system\<close> to \<^verbatim>\<open>systemDataHandler\<close>, \<^verbatim>\<open>global\<close> to
  \<^verbatim>\<open>allArticlesDataHandler\<close>, \<^verbatim>\<open>user\<close> to \<^verbatim>\<open>perUserDataHandler\<close> (which takes the data
  unpacked), \<^verbatim>\<open>article-update\<close> to \<^verbatim>\<open>articleUpdateHandler\<close>; the only other call it can
  cause is the status signal \<^verbatim>\<open>STATUS_UP\<close>. A message of any other type reaches no data
  handler. A message that does not parse, whose body is \<^verbatim>\<open>null\<close>, or whose payload the
  pack function rejects causes no call at all and leaves the state as it was.
\<close>

theorem message_dispatch:
  fixes env :: "'m env" and evs :: "event list" and i :: nat and m :: message
  defines "st \<equiv> snd (run env evs init)"
  defines "calls \<equiv> fst (step env (SocketMessage i m) st)"
  defines "st' \<equiv> snd (step env (SocketMessage i m) st)"
  assumes len: "i < length (sockets st)" and opn: "readyState (sockets st ! i) = OPEN"
  shows "(has_type ''system'' m \<longrightarrow>
           (case packSystemData env (message_data m) of
              Inr p \<Rightarrow> \<exists>up. calls = [systemDataHandler p] @ up
                          \<and> (up = [] \<or> up = [websocketStateHandler STATUS_UP])
            | Inl err \<Rightarrow> calls = [] \<and> st' = st))
       \<and> (has_type ''global'' m \<longrightarrow>
           (case packArticleData env (message_data m) of
              Inr p \<Rightarrow> \<exists>up. calls = [allArticlesDataHandler p] @ up
                          \<and> (up = [] \<or> up = [websocketStateHandler STATUS_UP])
            | Inl err \<Rightarrow> calls = [] \<and> st' = st))
       \<and> (has_type ''user'' m \<longrightarrow>
           (\<exists>up. calls = [perUserDataHandler (message_data m)] @ up
                \<and> (up = [] \<or> up = [websocketStateHandler STATUS_UP])))
       \<and> (has_type ''article-update'' m \<longrightarrow>
           (case packArticleUpdate env (message_data m) of
              Inr p \<Rightarrow> \<exists>up. calls = [articleUpdateHandler p] @ up
                          \<and> (up = [] \<or> up = [websocketStateHandler STATUS_UP])
            | Inl err \<Rightarrow> calls = [] \<and> st' = st))
       \<and> (m \<noteq> Unparsable \<and> m \<noteq> Parsed JNull
           \<and> \<not> has_type ''system'' m \<and> \<not> has_type ''global'' m
           \<and> \<not> has_type ''user'' m \<and> \<not> has_type ''article-update'' m
           \<longrightarrow> calls = [] \<or> calls = [websocketStateHandler STATUS_UP])
       \<and> (m = Unparsable \<or> m = Parsed JNull \<longrightarrow> calls = [] \<and> st' = st)"
proof -
  have "store_ok st"
    unfolding st_def by (rule store_ok_run [OF store_ok_init])
  with len have "has_onmessage (sockets st ! i)"
    by (simp add: store_ok_def)
  with len opn have s: "step env (SocketMessage i m) st = snd (onmessage env m st)"
    by simp
  have c: "calls = fst (snd (onmessage env m st))"
    unfolding calls_def s by (rule refl)
  have t: "st' = snd (snd (onmessage env m st))"
    unfolding st'_def s by (rule refl)
  have sys: "has_type ''system'' m \<longrightarrow>
           (case packSystemData env (message_data m) of
              Inr p \<Rightarrow> \<exists>up. calls = [systemDataHandler p] @ up
                          \<and> (up = [] \<or> up = [websocketStateHandler STATUS_UP])
            | Inl err \<Rightarrow> calls = [] \<and> st' = st)"
    using has_type_parsed [of "''system''" m] signal_up_calls [of "[systemDataHandler _]"]
    by (auto simp: c t onmessage_outcome split: sum.splits)
  have glo: "has_type ''global'' m \<longrightarrow>
           (case packArticleData env (message_data m) of
              Inr p \<Rightarrow> \<exists>up. calls = [allArticlesDataHandler p] @ up
                          \<and> (up = [] \<or> up = [websocketStateHandler STATUS_UP])
            | Inl err \<Rightarrow> calls = [] \<and> st' = st)"
    using has_type_parsed [of "''global''" m] has_type_unique [of "''global''" m "''system''"]
      signal_up_calls [of "[allArticlesDataHandler _]"]
    by (auto simp: c t onmessage_outcome split: sum.splits)
  have usr: "has_type ''user'' m \<longrightarrow>
           (\<exists>up. calls = [perUserDataHandler (message_data m)] @ up
                \<and> (up = [] \<or> up = [websocketStateHandler STATUS_UP]))"
    using has_type_parsed [of "''user''" m] has_type_unique [of "''user''" m "''system''"]
      has_type_unique [of "''user''" m "''global''"]
      signal_up_calls [of "[perUserDataHandler (message_data m)]" "st\<lparr>gotUser := True\<rparr>"]
    by (auto simp: c t onmessage_outcome split: sum.splits)
  have art: "has_type ''article-update'' m \<longrightarrow>
           (case packArticleUpdate env (message_data m) of
              Inr p \<Rightarrow> \<exists>up. calls = [articleUpdateHandler p] @ up
                          \<and> (up = [] \<or> up = [websocketStateHandler STATUS_UP])
            | Inl err \<Rightarrow> calls = [] \<and> st' = st)"
    using has_type_parsed [of "''article-update''" m]
      has_type_unique [of "''article-update''" m "''system''"]
      has_type_unique [of "''article-update''" m "''global''"]
      has_type_unique [of "''article-update''" m "''user''"]
      signal_up_calls [of "[articleUpdateHandler _]" st]
    by (auto simp: c t onmessage_outcome split: sum.splits)
  have oth: "m \<noteq> Unparsable \<and> m \<noteq> Parsed JNull
           \<and> \<not> has_type ''system'' m \<and> \<not> has_type ''global'' m
           \<and> \<not> has_type ''user'' m \<and> \<not> has_type ''article-update'' m
           \<longrightarrow> calls = [] \<or> calls = [websocketStateHandler STATUS_UP]"
    by (simp add: c onmessage_outcome signal_up_def)
  have bad: "m = Unparsable \<or> m = Parsed JNull \<longrightarrow> calls = [] \<and> st' = st"
    by (auto simp: c t onmessage_outcome)
  from sys glo usr art oth bad show ?thesis by (intro conjI)
qed


theorem message_dispatch_witness:
  "\<exists>up. fst (step example_env (SocketMessage 0 global_message)
              (snd (run example_env [CallConnect (Some ''tok''), SocketOpen 0] init)))
         = [allArticlesDataHandler (IAllArticlesData [] [])] @ up
       \<and> (up = [] \<or> up = [websocketStateHandler STATUS_UP])"
proof -
  let ?st = "snd (run example_env [CallConnect (Some ''tok''), SocketOpen 0] init)"
  have h1: "0 < length (sockets ?st)" by (simp add: run_eval)
  have h2: "readyState (sockets ?st ! 0) = OPEN" by (simp add: run_eval)
  have ht: "has_type ''global'' global_message" by (simp add: run_eval)
  have pk: "packArticleData example_env (message_data global_message) =
              Inr (IAllArticlesData [] [])"
    by (simp add: run_eval)
  note t = message_dispatch [OF h1 h2, of global_message]
  from t [THEN conjunct2, THEN conjunct1, THEN mp, OF ht]
  show ?thesis by (simp only: pk sum.case)
qed

subsection \<open>The notifier: closing\<close>





subsection \<open>The notifier: connection URL\<close>

lemma map_sock_url_update:
  "map sock_url (xs[i := (xs ! i)\<lparr>readyState := r\<rparr>]) = map sock_url xs"
  "map sock_url (xs[i := (xs ! i)\<lparr>has_onclose := b\<rparr>]) = map sock_url xs"
  by (induction xs arbitrary: i; simp split: nat.splits)+

text \<open>
  One event leaves the URLs of the store as they are, or it is a connect or the firing of
  an active timer whose check appends one socket, to which \<^verbatim>\<open>ws\<close> then refers, with
  the URL built from the token read at that check.
\<close>

lemma step_urls:
  "map sock_url (sockets (snd (step env e st))) = map sock_url (sockets st)
   \<or> (\<exists>tok. (e = CallConnect tok \<or> (\<exists>n. e = TimerFires n tok \<and> n \<in> fst ` set (intervals st)))
         \<and> ws (snd (step env e st)) = Some (length (sockets st))
         \<and> map sock_url (sockets (snd (step env e st))) =
             map sock_url (sockets st) @
               [replace_http_ws (serviceURL (API_URL env)
                  (''updates/summary/?token='' @ template tok) None None)])"
proof (cases e)
  case (SocketMessage i m)
  then show ?thesis by (simp add: onmessage_frame)
qed (auto simp: notifier_defs Let_def map_sock_url_update split: option.splits if_splits)

lemma sockets_created:
  assumes "i < length (sockets (snd (run env evs init)))"
  shows "\<exists>pre e post tok.
           evs = pre @ e # post
         \<and> (e = CallConnect tok
            \<or> (\<exists>n. e = TimerFires n tok \<and> n \<in> fst ` set (intervals (snd (run env pre init)))))
         \<and> length (sockets (snd (run env pre init))) = i
         \<and> ws (snd (run env (pre @ [e]) init)) = Some i
         \<and> sock_url (sockets (snd (run env evs init)) ! i) =
             replace_http_ws (serviceURL (API_URL env)
               (''updates/summary/?token='' @ template tok) None None)"
  using assms
proof (induction evs arbitrary: i rule: rev_induct)
  case Nil
  then show ?case by (simp add: init_def)
next
  case (snoc x xs)
  let ?st = "snd (run env xs init)"
  let ?st' = "snd (step env x ?st)"
  let ?U = "\<lambda>tok. replace_http_ws (serviceURL (API_URL env)
               (''updates/summary/?token='' @ template tok) None None)"
  have after: "snd (run env (xs @ [x]) init) = ?st'"
    by (simp add: run_snoc)
  from snoc.prems have i: "i < length (map sock_url (sockets ?st'))"
    by (simp add: after)
  have nth: "sock_url (sockets ?st' ! i) = map sock_url (sockets ?st') ! i"
    using i by simp
  have old: ?case if lt: "i < length (sockets ?st)"
    and same: "map sock_url (sockets ?st') ! i = map sock_url (sockets ?st) ! i"
  proof -
    from snoc.IH [OF lt] obtain pre e post tok where
      "xs = pre @ e # post"
      "e = CallConnect tok
        \<or> (\<exists>n. e = TimerFires n tok \<and> n \<in> fst ` set (intervals (snd (run env pre init))))"
      "length (sockets (snd (run env pre init))) = i"
      "ws (snd (run env (pre @ [e]) init)) = Some i"
      "sock_url (sockets ?st ! i) = ?U tok"
      by blast
    moreover from this(1) have "xs @ [x] = pre @ e # (post @ [x])" by simp
    moreover have "sock_url (sockets (snd (run env (xs @ [x]) init)) ! i) = sock_url (sockets ?st ! i)"
      using nth same lt by (simp add: after)
    ultimately show ?thesis by metis
  qed
  from step_urls [of env x ?st] show ?case
  proof
    assume eq: "map sock_url (sockets ?st') = map sock_url (sockets ?st)"
    then have "length (sockets ?st') = length (sockets ?st)"
      by (metis length_map)
    with i have lt: "i < length (sockets ?st)" by simp
    from eq show ?thesis by (intro old [OF lt]) simp
  next
    assume "\<exists>tok. (x = CallConnect tok
                    \<or> (\<exists>n. x = TimerFires n tok \<and> n \<in> fst ` set (intervals ?st)))
         \<and> ws ?st' = Some (length (sockets ?st))
         \<and> map sock_url (sockets ?st') = map sock_url (sockets ?st) @ [?U tok]"
    then obtain tok where
      x: "x = CallConnect tok \<or> (\<exists>n. x = TimerFires n tok \<and> n \<in> fst ` set (intervals ?st))"
      and w: "ws ?st' = Some (length (sockets ?st))"
      and m: "map sock_url (sockets ?st') = map sock_url (sockets ?st) @ [?U tok]"
      by blast
    from m have "length (sockets ?st') = Suc (length (sockets ?st))"
      by (metis length_map length_append_singleton)
    with i have "i < length (sockets ?st) \<or> i = length (sockets ?st)" by auto
    then show ?thesis
    proof
      assume lt: "i < length (sockets ?st)"
      from m lt show ?thesis by (intro old [OF lt]) (simp add: nth_append)
    next
      assume eq: "i = length (sockets ?st)"
      with m nth have "sock_url (sockets (snd (run env (xs @ [x]) init)) ! i) = ?U tok"
        by (simp add: after nth_append)
      moreover have "xs @ [x] = xs @ x # []" by simp
      moreover from w eq have "ws (snd (run env (xs @ [x]) init)) = Some i"
        by (simp add: after)
      ultimately show ?thesis using x eq by metis
    qed
  qed
qed


text \<open>
  C7. A liveness check that finds \<^verbatim>\<open>ws\<close> \<^verbatim>\<open>null\<close> or not open creates one socket, to
  which \<^verbatim>\<open>ws\<close> then refers, and its URL is the \<^verbatim>\<open>updates/summary/\<close> service URL with the
  query \<^verbatim>\<open>?token=\<close> followed by the token \<^verbatim>\<open>getToken()\<close> returned at that check, a
  leading \<^verbatim>\<open>http\<close> replaced by \<^verbatim>\<open>ws\<close> (so \<^verbatim>\<open>http://h\<close> gives \<^verbatim>\<open>ws://h/...\<close> and
  \<^verbatim>\<open>https://h\<close> gives \<^verbatim>\<open>wss://h/...\<close>). \<^verbatim>\<open>connectNotifier\<close> and every firing of an active
  timer run that check. Conversely every socket of the store was created by such an
  event, at the position it has, and still carries the URL with the token read then.
\<close>

theorem socket_url_carries_token:
  fixes env :: "'m env" and evs :: "event list"
  defines "st \<equiv> snd (run env evs init)"
  shows "(\<forall>token. ws st = None \<or> (\<exists>i. ws st = Some i \<and> readyState (sockets st ! i) \<noteq> OPEN)
            \<longrightarrow> ws (checkSocketAlive env token st) = Some (length (sockets st))
              \<and> sockets (checkSocketAlive env token st) =
                  sockets st @
                    [\<lparr>sock_url = replace_http_ws (serviceURL (API_URL env)
                                   (''updates/summary/?token='' @ template token) None None),
                      readyState = CONNECTING, has_onopen = True, has_onclose = False,
                      has_onmessage = True\<rparr>])
       \<and> (\<forall>token. sockets (snd (step env (CallConnect token) st)) =
                     sockets (checkSocketAlive env token st)
                \<and> ws (snd (step env (CallConnect token) st)) =
                     ws (checkSocketAlive env token st))
       \<and> (\<forall>n token. n \<in> fst ` set (intervals st)
            \<longrightarrow> snd (step env (TimerFires n token) st) = checkSocketAlive env token st)
       \<and> (\<forall>i < length (sockets st). \<exists>pre e post tok.
              evs = pre @ e # post
            \<and> (e = CallConnect tok
               \<or> (\<exists>n. e = TimerFires n tok
                      \<and> n \<in> fst ` set (intervals (snd (run env pre init)))))
            \<and> length (sockets (snd (run env pre init))) = i
            \<and> ws (snd (run env (pre @ [e]) init)) = Some i
            \<and> sock_url (sockets st ! i) =
                replace_http_ws (serviceURL (API_URL env)
                  (''updates/summary/?token='' @ template tok) None None))
       \<and> (\<forall>rest token. API_URL env = ''http'' @ rest
            \<longrightarrow> replace_http_ws (serviceURL (API_URL env)
                   (''updates/summary/?token='' @ template token) None None) =
                ''ws'' @ rest @ ''/services/updates/summary/?token='' @ template token)
       \<and> (\<forall>t. template (Some t) = t)"
proof (intro conjI allI impI)
  fix token
  assume "ws st = None \<or> (\<exists>i. ws st = Some i \<and> readyState (sockets st ! i) \<noteq> OPEN)"
  then show "ws (checkSocketAlive env token st) = Some (length (sockets st))"
    and "sockets (checkSocketAlive env token st) =
           sockets st @
             [\<lparr>sock_url = replace_http_ws (serviceURL (API_URL env)
                            (''updates/summary/?token='' @ template token) None None),
               readyState = CONNECTING, has_onopen = True, has_onclose = False,
               has_onmessage = True\<rparr>]"
    by (auto simp: checkSocketAlive_def Let_def)
next
  fix token
  show "sockets (snd (step env (CallConnect token) st)) = sockets (checkSocketAlive env token st)"
    and "ws (snd (step env (CallConnect token) st)) = ws (checkSocketAlive env token st)"
    by (simp_all add: connectNotifier_def setInterval_def Let_def)
next
  fix n token
  assume "n \<in> fst ` set (intervals st)"
  then show "snd (step env (TimerFires n token) st) = checkSocketAlive env token st"
    by simp
next
  fix i
  assume "i < length (sockets st)"
  then show "\<exists>pre e post tok.
              evs = pre @ e # post
            \<and> (e = CallConnect tok
               \<or> (\<exists>n. e = TimerFires n tok
                      \<and> n \<in> fst ` set (intervals (snd (run env pre init)))))
            \<and> length (sockets (snd (run env pre init))) = i
            \<and> ws (snd (run env (pre @ [e]) init)) = Some i
            \<and> sock_url (sockets st ! i) =
                replace_http_ws (serviceURL (API_URL env)
                  (''updates/summary/?token='' @ template tok) None None)"
    unfolding st_def by (rule sockets_created)
next
  fix rest token
  assume "API_URL env = ''http'' @ rest"
  then show "replace_http_ws (serviceURL (API_URL env)
                   (''updates/summary/?token='' @ template token) None None) =
                ''ws'' @ rest @ ''/services/updates/summary/?token='' @ template token"
    by (simp add: replace_http_ws_def serviceURL_def SERVICES_URL_def serializeParams_def)
next
  fix t
  show "template (Some t) = t" by (simp add: template_def)
qed

theorem socket_url_carries_token_witness:
  "ws (checkSocketAlive example_env (Some ''tok1'') (snd (run example_env [] init))) = Some 0
   \<and> sockets (checkSocketAlive example_env (Some ''tok1'') (snd (run example_env [] init))) =
       [\<lparr>sock_url = ''wss://mod.example/services/updates/summary/?token=tok1'',
         readyState = CONNECTING, has_onopen = True, has_onclose = False,
         has_onmessage = True\<rparr>]"
proof -
  have h: "ws (snd (run example_env [] init)) = None
           \<or> (\<exists>i. ws (snd (run example_env [] init)) = Some i
                \<and> readyState (sockets (snd (run example_env [] init)) ! i) \<noteq> OPEN)"
    by (simp add: init_def)
  note t = socket_url_carries_token [of example_env "[]"]
  from t [THEN conjunct1, rule_format, OF h, of "Some ''tok1''"]
  show ?thesis
    by (simp add: example_env_def init_def serviceURL_def SERVICES_URL_def serializeParams_def
        template_def replace_http_ws_def)
qed

subsection \<open>The notifier: liveness check\<close>

lemma step_intervals_kept:
  assumes "e \<noteq> CallDisconnect" and "p \<in> set (intervals st)"
  shows "p \<in> set (intervals (snd (step env e st)))"
proof (cases e)
  case (SocketMessage i m)
  with assms show ?thesis by (simp add: onmessage_frame)
qed (use assms in \<open>auto simp: notifier_defs Let_def split: option.splits if_splits\<close>)

lemma run_intervals_kept:
  "CallDisconnect \<notin> set evs \<Longrightarrow> p \<in> set (intervals st)
   \<Longrightarrow> p \<in> set (intervals (snd (run env evs st)))"
proof (induction evs arbitrary: st)
  case Nil
  then show ?case by simp
next
  case (Cons e es)
  from Cons.prems have "p \<in> set (intervals (snd (step env e st)))"
    by (intro step_intervals_kept) auto
  from Cons.IH [OF _ this] Cons.prems(1) show ?case
    by (simp add: split_beta)
qed

lemma step_intervalTimer_kept:
  assumes "\<forall>tok. e \<noteq> CallConnect tok"
  shows "intervalTimer (snd (step env e st)) = intervalTimer st"
proof (cases e)
  case (SocketMessage i m)
  then show ?thesis by (simp add: onmessage_frame)
qed (use assms in \<open>auto simp: notifier_defs Let_def split: option.splits if_splits\<close>)

lemma run_intervalTimer_kept:
  "\<forall>tok. CallConnect tok \<notin> set evs
   \<Longrightarrow> intervalTimer (snd (run env evs st)) = intervalTimer st"
proof (induction evs arbitrary: st)
  case Nil
  then show ?case by simp
next
  case (Cons e es)
  from Cons.prems have "intervalTimer (snd (step env e st)) = intervalTimer st"
    by (intro step_intervalTimer_kept) auto
  with Cons.IH [of "snd (step env e st)"] Cons.prems show ?case
    by (simp add: split_beta)
qed

lemma connectNotifier_timer:
  "intervalTimer (connectNotifier env token st) = Some (timerCount st)"
  "(timerCount st, 10000) \<in> set (intervals (connectNotifier env token st))"
  by (simp_all add: connectNotifier_def setInterval_def checkSocketAlive_def Let_def)

lemma connectNotifier_checks:
  "sockets (connectNotifier env token st) = sockets (checkSocketAlive env token st)"
  "ws (connectNotifier env token st) = ws (checkSocketAlive env token st)"
  by (simp_all add: connectNotifier_def setInterval_def Let_def)

lemma checkSocketAlive_reconnects:
  assumes "ws st = None \<or> (\<exists>i. ws st = Some i \<and> readyState (sockets st ! i) \<noteq> OPEN)"
  shows "\<exists>s. sockets (checkSocketAlive env token st) = sockets st @ [s]
             \<and> readyState s = CONNECTING"
    and "ws (checkSocketAlive env token st) = Some (length (sockets st))"
  using assms by (auto simp: checkSocketAlive_def Let_def)

lemma disconnectNotifier_clears:
  "intervalTimer st = Some n \<Longrightarrow> n \<notin> fst ` set (intervals (snd (disconnectNotifier st)))"
  by (auto simp: disconnectNotifier_def clearInterval_def close_socket_def Let_def
      split: option.splits)

lemma disconnectNotifier_closes:
  assumes "ws st = Some i" and "i < length (sockets st)"
  shows "fst (disconnectNotifier st) = None"
    and "readyState (sockets (snd (disconnectNotifier st)) ! i) \<in> {CLOSING, CLOSED}"
  using assms
  by (auto simp: disconnectNotifier_def clearInterval_def close_socket_def Let_def
      split: option.splits, (cases "readyState (sockets st ! i)"; simp)+)

text \<open>
  C3 as stated fails in two places. The module keeps one \<^verbatim>\<open>intervalTimer\<close>: after two
  calls of \<^verbatim>\<open>connectNotifier\<close>, \<^verbatim>\<open>disconnectNotifier\<close> cancels the second interval
  only, and the first goes on to open a socket. And when \<^verbatim>\<open>ws\<close> is \<^verbatim>\<open>null\<close>,
  \<^verbatim>\<open>ws.close()\<close> raises a TypeError and closes nothing, here while socket 0, which
  opened after the check had replaced it, is still open.
\<close>

theorem liveness_check_counterexample:
  "intervals (snd (run example_env
       [CallConnect (Some ''tok''), CallConnect (Some ''tok''), CallDisconnect] init))
     = [(0, 10000)]
   \<and> length (sockets (snd (run example_env
       [CallConnect (Some ''tok''), CallConnect (Some ''tok''), CallDisconnect] init))) = 2
   \<and> length (sockets (snd (run example_env
       [CallConnect (Some ''tok''), CallConnect (Some ''tok''), CallDisconnect,
        TimerFires 0 (Some ''tok'')] init))) = 3
   \<and> ws (snd (run example_env
       [CallConnect (Some ''tok''), TimerFires 0 (Some ''tok''), SocketOpen 1, SocketOpen 0,
        SocketClose 1 1006] init)) = None
   \<and> fst (disconnectNotifier (snd (run example_env
       [CallConnect (Some ''tok''), TimerFires 0 (Some ''tok''), SocketOpen 1, SocketOpen 0,
        SocketClose 1 1006] init))) = Some TypeError
   \<and> readyState (sockets (snd (disconnectNotifier (snd (run example_env
       [CallConnect (Some ''tok''), TimerFires 0 (Some ''tok''), SocketOpen 1, SocketOpen 0,
        SocketClose 1 1006] init)))) ! 0) = OPEN"
  by (simp add: run_eval)


text \<open>
  C3, amended. \<^verbatim>\<open>connectNotifier\<close> runs the liveness check at once and registers it with
  \<^verbatim>\<open>setInterval\<close> at a period of 10000 milliseconds. Until \<^verbatim>\<open>disconnectNotifier\<close> or
  another \<^verbatim>\<open>connectNotifier\<close> is called, \<^verbatim>\<open>intervalTimer\<close> names that timer, the timer
  stays active, each time it fires it runs the check, and the check opens a new socket
  whenever \<^verbatim>\<open>ws\<close> is \<^verbatim>\<open>null\<close> or not in the \<^verbatim>\<open>OPEN\<close> state. \<^verbatim>\<open>disconnectNotifier\<close> then
  cancels that timer, which no longer fires, and, when \<^verbatim>\<open>ws\<close> refers to a socket, calls
  \<^verbatim>\<open>close()\<close> on it without raising.
\<close>

theorem liveness_check_until_disconnect:
  fixes env :: "'m env" and evs0 evs :: "event list" and token :: "string option"
  defines "st0 \<equiv> snd (run env evs0 init)"
  defines "st1 \<equiv> connectNotifier env token st0"
  defines "st \<equiv> snd (run env evs st1)"
  assumes nodisc: "CallDisconnect \<notin> set evs"
      and noconn: "\<forall>tok. CallConnect tok \<notin> set evs"
  shows "(ws st0 = None \<or> (\<exists>i. ws st0 = Some i \<and> readyState (sockets st0 ! i) \<noteq> OPEN)
           \<longrightarrow> (\<exists>s. sockets st1 = sockets st0 @ [s] \<and> readyState s = CONNECTING)
               \<and> ws st1 = Some (length (sockets st0)))
       \<and> (\<exists>n. intervalTimer st1 = Some n \<and> intervalTimer st = Some n
              \<and> (n, 10000) \<in> set (intervals st)
              \<and> (\<forall>tok. step env (TimerFires n tok) st = ([], checkSocketAlive env tok st))
              \<and> n \<notin> fst ` set (intervals (snd (disconnectNotifier st)))
              \<and> (\<forall>tok. step env (TimerFires n tok) (snd (disconnectNotifier st)) =
                          ([], snd (disconnectNotifier st))))
       \<and> (\<forall>tok. ws st = None \<or> (\<exists>i. ws st = Some i \<and> readyState (sockets st ! i) \<noteq> OPEN)
              \<longrightarrow> (\<exists>s. sockets (checkSocketAlive env tok st) = sockets st @ [s]
                        \<and> readyState s = CONNECTING)
                  \<and> ws (checkSocketAlive env tok st) = Some (length (sockets st)))
       \<and> (\<forall>i. ws st = Some i
              \<longrightarrow> fst (disconnectNotifier st) = None
                  \<and> readyState (sockets (snd (disconnectNotifier st)) ! i) \<in> {CLOSING, CLOSED})"
proof (intro conjI allI impI)
  assume g: "ws st0 = None \<or> (\<exists>i. ws st0 = Some i \<and> readyState (sockets st0 ! i) \<noteq> OPEN)"
  from checkSocketAlive_reconnects [OF g, of env token]
  show "\<exists>s. sockets st1 = sockets st0 @ [s] \<and> readyState s = CONNECTING"
    and "ws st1 = Some (length (sockets st0))"
    by (simp_all add: st1_def connectNotifier_checks)
next
  have t1: "intervalTimer st1 = Some (timerCount st0)"
    and a1: "(timerCount st0, 10000) \<in> set (intervals st1)"
    by (simp_all add: st1_def connectNotifier_timer)
  from run_intervalTimer_kept [OF noconn, of env st1] t1
  have t: "intervalTimer st = Some (timerCount st0)"
    by (simp add: st_def)
  from run_intervals_kept [OF nodisc a1]
  have a: "(timerCount st0, 10000) \<in> set (intervals st)"
    by (simp add: st_def)
  then have "timerCount st0 \<in> fst ` set (intervals st)"
    by force
  then have f: "\<forall>tok. step env (TimerFires (timerCount st0) tok) st =
                 ([], checkSocketAlive env tok st)"
    by simp
  from disconnectNotifier_clears [OF t]
  have c: "timerCount st0 \<notin> fst ` set (intervals (snd (disconnectNotifier st)))" .
  then have d: "\<forall>tok. step env (TimerFires (timerCount st0) tok) (snd (disconnectNotifier st)) =
                  ([], snd (disconnectNotifier st))"
    by simp
  from t1 t a f c d
  show "\<exists>n. intervalTimer st1 = Some n \<and> intervalTimer st = Some n
              \<and> (n, 10000) \<in> set (intervals st)
              \<and> (\<forall>tok. step env (TimerFires n tok) st = ([], checkSocketAlive env tok st))
              \<and> n \<notin> fst ` set (intervals (snd (disconnectNotifier st)))
              \<and> (\<forall>tok. step env (TimerFires n tok) (snd (disconnectNotifier st)) =
                          ([], snd (disconnectNotifier st)))"
    by (intro exI [of _ "timerCount st0"] conjI)
next
  fix tok
  assume g: "ws st = None \<or> (\<exists>i. ws st = Some i \<and> readyState (sockets st ! i) \<noteq> OPEN)"
  from checkSocketAlive_reconnects [OF g, of env tok]
  show "\<exists>s. sockets (checkSocketAlive env tok st) = sockets st @ [s] \<and> readyState s = CONNECTING"
    and "ws (checkSocketAlive env tok st) = Some (length (sockets st))"
    by simp_all
next
  fix i
  assume cur: "ws st = Some i"
  have "st = snd (run env (evs0 @ CallConnect token # evs) init)"
    by (simp add: st_def st1_def st0_def run_append split_beta)
  then have "store_ok st"
    using store_ok_run [OF store_ok_init] by simp
  with cur have len: "i < length (sockets st)"
    by (simp add: store_ok_def)
  from disconnectNotifier_closes [OF cur len]
  show "fst (disconnectNotifier st) = None"
    and "readyState (sockets (snd (disconnectNotifier st)) ! i) \<in> {CLOSING, CLOSED}"
    by simp_all
qed

theorem liveness_check_until_disconnect_witness:
  "\<exists>n. intervalTimer (connectNotifier example_env (Some ''tok'') (snd (run example_env [] init)))
          = Some n
      \<and> intervalTimer (snd (run example_env [SocketOpen 0, SocketClose 0 1006]
             (connectNotifier example_env (Some ''tok'') (snd (run example_env [] init)))))
          = Some n
      \<and> (n, 10000) \<in> set (intervals (snd (run example_env [SocketOpen 0, SocketClose 0 1006]
             (connectNotifier example_env (Some ''tok'') (snd (run example_env [] init))))))
      \<and> (\<forall>tok. step example_env (TimerFires n tok)
                  (snd (run example_env [SocketOpen 0, SocketClose 0 1006]
                     (connectNotifier example_env (Some ''tok'') (snd (run example_env [] init)))))
               = ([], checkSocketAlive example_env tok
                        (snd (run example_env [SocketOpen 0, SocketClose 0 1006]
                           (connectNotifier example_env (Some ''tok'')
                              (snd (run example_env [] init)))))))
      \<and> n \<notin> fst ` set (intervals (snd (disconnectNotifier
             (snd (run example_env [SocketOpen 0, SocketClose 0 1006]
                (connectNotifier example_env (Some ''tok'') (snd (run example_env [] init))))))))
      \<and> (\<forall>tok. step example_env (TimerFires n tok)
                  (snd (disconnectNotifier
                     (snd (run example_env [SocketOpen 0, SocketClose 0 1006]
                        (connectNotifier example_env (Some ''tok'')
                           (snd (run example_env [] init)))))))
               = ([], snd (disconnectNotifier
                     (snd (run example_env [SocketOpen 0, SocketClose 0 1006]
                        (connectNotifier example_env (Some ''tok'')
                           (snd (run example_env [] init))))))))"
proof -
  have h1: "CallDisconnect \<notin> set [SocketOpen 0, SocketClose 0 1006]"
    by simp
  have h2: "\<forall>tok. CallConnect tok \<notin> set [SocketOpen 0, SocketClose 0 1006]"
    by simp
  show ?thesis
    by (rule liveness_check_until_disconnect
          [OF h1 h2, of example_env "[]" "Some ''tok''", THEN conjunct2, THEN conjunct1])
qed

end
